theory Spec2Isabelle
  imports Complex_Main "HOL-Library.AList"
begin

section \<open>Strings\<close>

text \<open>
  A Python \<open>str\<close> is a sequence of Unicode code points and \<open>len\<close> counts them, so a
  string is modelled as the list of its code points. \<open>ascii\<close> turns a literal written
  with ASCII characters into such a list; a character of a source literal outside ASCII
  is given by its code point.
\<close>

type_synonym pystr = "nat list"

definition ascii :: "string \<Rightarrow> pystr" where
  "ascii s = map of_char s"

fun startswith :: "pystr \<Rightarrow> pystr \<Rightarrow> bool" where
  "startswith s [] = True"
| "startswith [] (p # ps) = False"
| "startswith (c # cs) (p # ps) = (c = p \<and> startswith cs ps)"

text \<open>\<open>contains sub s\<close> is Python's \<open>sub in s\<close>.\<close>

fun contains :: "pystr \<Rightarrow> pystr \<Rightarrow> bool" where
  "contains sub [] = (sub = [])"
| "contains sub (c # cs) = (startswith (c # cs) sub \<or> contains sub cs)"

text \<open>
  \<open>str.lower\<close>, as far as the source needs it: its only use is the test
  \<open>"fail" in str(result).lower()\<close>. The letters A to Z go to a to z and U+0130 goes to
  \<open>i\<close> followed by U+0307; these are the only characters whose lower-case form holds
  one of the letters of \<open>fail\<close>, and every other character is left as it is.
\<close>

definition lower_char :: "nat \<Rightarrow> pystr" where
  "lower_char c =
     (if 65 \<le> c \<and> c \<le> 90 then [c + 32]
      else if c = 0x130 then [0x69, 0x307]
      else [c])"

definition lower :: "pystr \<Rightarrow> pystr" where
  "lower s = concat (map lower_char s)"

text \<open>
  \<open>str.upper\<close> on the letters a to z. The source applies it to the role of a heading
  node only, which is the word \<open>heading\<close>.
\<close>

definition upper_char :: "nat \<Rightarrow> nat" where
  "upper_char c = (if 97 \<le> c \<and> c \<le> 122 then c - 32 else c)"

definition upper :: "pystr \<Rightarrow> pystr" where
  "upper s = map upper_char s"

text \<open>The characters that \<open>str.strip()\<close> removes: those for which \<open>str.isspace\<close> holds.\<close>

definition is_space :: "nat \<Rightarrow> bool" where
  "is_space c =
     ((9 \<le> c \<and> c \<le> 13) \<or> (0x1C \<le> c \<and> c \<le> 0x20) \<or> c = 0x85 \<or> c = 0xA0 \<or> c = 0x1680
      \<or> (0x2000 \<le> c \<and> c \<le> 0x200A) \<or> c = 0x2028 \<or> c = 0x2029 \<or> c = 0x202F
      \<or> c = 0x205F \<or> c = 0x3000)"

definition strip :: "pystr \<Rightarrow> pystr" where
  "strip s = rev (dropWhile is_space (rev (dropWhile is_space s)))"

text \<open>\<open>sep.join(parts)\<close>.\<close>

fun join :: "pystr \<Rightarrow> pystr list \<Rightarrow> pystr" where
  "join sep [] = []"
| "join sep [p] = p"
| "join sep (p # q # ps) = p @ sep @ join sep (q # ps)"

text \<open>The decimal rendering of an integer, as an f-string prints it.\<close>

fun str_nat :: "nat \<Rightarrow> pystr" where
  "str_nat n = (if n < 10 then [48 + n] else str_nat (n div 10) @ [48 + n mod 10])"

declare str_nat.simps [simp del]

definition str_int :: "int \<Rightarrow> pystr" where
  "str_int i = (if i < 0 then 45 # str_nat (nat (- i)) else str_nat (nat i))"

section \<open>Conversation history (src/src/agent.py)\<close>

text \<open>
  A tool call of a model turn: \<open>tool_call.id\<close>, \<open>tool_call.function.name\<close> and
  \<open>tool_call.function.arguments\<close> (the JSON text of the arguments).
\<close>

record tool_call =
  call_id :: pystr
  fname :: pystr
  arguments :: pystr

text \<open>
  An entry of \<open>self.history\<close>: a dictionary with the keys \<open>role\<close>, \<open>content\<close>,
  \<open>tool_calls\<close> and \<open>tool_call_id\<close>. An absent key and a \<open>None\<close> value are both
  \<open>None\<close>; an absent or \<open>None\<close> list of tool calls is the empty list.
\<close>

record message =
  msg_role :: pystr
  msg_content :: "pystr option"
  msg_tool_calls :: "tool_call list"
  msg_tool_call_id :: "pystr option"

text \<open>
  What \<open>_prune_history\<close> takes from outside the repository: \<open>count_tokens s\<close> is
  \<open>len(enc.encode(s))\<close> for the tokenizer \<open>enc\<close> it resolved, and \<open>str_tool_calls\<close> is
  Python's \<open>str\<close> of the list under the key \<open>tool_calls\<close>.
\<close>

record tokenizer =
  count_tokens :: "pystr \<Rightarrow> nat"
  str_tool_calls :: "tool_call list \<Rightarrow> pystr"

definition TOKEN_LIMIT :: nat where
  "TOKEN_LIMIT = 100000"

text \<open>
  \<open>msg_content = str(msg.get("content") or "")\<close>, extended by
  \<open>str(msg["tool_calls"])\<close> when \<open>msg.get("tool_calls")\<close> is truthy.
\<close>

definition msg_text :: "tokenizer \<Rightarrow> message \<Rightarrow> pystr" where
  "msg_text tk m =
     (case msg_content m of None \<Rightarrow> [] | Some c \<Rightarrow> c) @
     (if msg_tool_calls m \<noteq> [] then str_tool_calls tk (msg_tool_calls m) else [])"

definition msg_tokens :: "tokenizer \<Rightarrow> message \<Rightarrow> nat" where
  "msg_tokens tk m = count_tokens tk (msg_text tk m)"

text \<open>
  The loop of \<open>_prune_history\<close> over \<open>reversed(self.history)\<close>, with its two
  accumulators \<open>total_tokens\<close> and \<open>kept_messages\<close>; \<open>break\<close> returns what was kept.
\<close>

fun prune_loop ::
  "tokenizer \<Rightarrow> nat \<Rightarrow> nat \<Rightarrow> message list \<Rightarrow> message list \<Rightarrow> message list" where
  "prune_loop tk limit total_tokens kept_messages [] = kept_messages"
| "prune_loop tk limit total_tokens kept_messages (msg # rest) =
     (if total_tokens + msg_tokens tk msg > limit then kept_messages
      else prune_loop tk limit (total_tokens + msg_tokens tk msg) (kept_messages @ [msg]) rest)"

definition pruned :: "tokenizer \<Rightarrow> nat \<Rightarrow> message list \<Rightarrow> message list" where
  "pruned tk limit h = rev (prune_loop tk limit 0 [] (rev h))"

text \<open>
  \<open>_add_tool_result\<close>: a result of more than 20000 characters is cut to its first 2000
  and the marker is put after them.
\<close>

definition TRUNCATION_MARKER :: pystr where
  "TRUNCATION_MARKER =
     10 # ascii ''...[TRUNCATED DUE TO LENGTH]... Call scan_page again if needed.''"

definition stored_result :: "pystr \<Rightarrow> pystr" where
  "stored_result result =
     (if length result > 20000 then take 2000 result @ TRUNCATION_MARKER else result)"

definition tool_message :: "pystr \<Rightarrow> pystr \<Rightarrow> message" where
  "tool_message tool_id result =
     \<lparr>msg_role = ascii ''tool'', msg_content = Some result, msg_tool_calls = [],
      msg_tool_call_id = Some tool_id\<rparr>"

section \<open>The agent (src/src/agent.py)\<close>

text \<open>
  What \<open>json.loads\<close> returns. The keys of an object are distinct and in the order of
  the text.
\<close>

datatype json =
    JNull
  | JBool bool
  | JInt int
  | JFloat real
  | JStr pystr
  | JArr "json list"
  | JObj "(pystr \<times> json) list"

text \<open>The truth value Python gives to such a value in \<open>if\<close>, \<open>not\<close> and \<open>or\<close>.\<close>

fun truthy :: "json \<Rightarrow> bool" where
  "truthy JNull = False"
| "truthy (JBool b) = b"
| "truthy (JInt i) = (i \<noteq> 0)"
| "truthy (JFloat x) = (x \<noteq> 0)"
| "truthy (JStr t) = (t \<noteq> [])"
| "truthy (JArr xs) = (xs \<noteq> [])"
| "truthy (JObj kvs) = (kvs \<noteq> [])"

text \<open>
  The exceptions of \<open>Agent.run\<close>:
  \<^item> \<open>JSONDecodeError t\<close>: \<open>json.loads(t)\<close> failed;
  \<^item> \<open>AttributeError v a\<close>: the value \<open>v\<close> has no attribute \<open>a\<close>;
  \<^item> \<open>TypeError f args\<close>: \<open>f(**args)\<close> could not bind \<open>args\<close> to the parameters of \<open>f\<close>;
  \<^item> \<open>KeyError k\<close>: \<open>pop(k)\<close> on a dictionary without the key \<open>k\<close>;
  \<^item> \<open>ToolError m\<close>: an exception with the message \<open>m\<close> raised inside a browser operation;
  \<^item> \<open>MarkupError t\<close>: the console could not parse the markup of the text \<open>t\<close>, which
    holds a closing tag that closes nothing;
  \<^item> \<open>NotRenderableError v\<close>: the console cannot render the value \<open>v\<close>, which is not a
    string, inside a panel.
\<close>

datatype exn =
    JSONDecodeError pystr
  | AttributeError json pystr
  | TypeError pystr json
  | KeyError json
  | ToolError pystr
  | MarkupError pystr
  | NotRenderableError json

text \<open>
  What \<open>console.print\<close> is given: a string, which the console reads as markup
  (\<open>Text\<close>), a value that is not a string (\<open>Obj\<close>), \<open>Markdown(t)\<close>, or
  \<open>Panel(r)\<close>. The titles and styles of the panels are fixed and are left out.
\<close>

datatype renderable = Text pystr | Obj json | Markdown pystr | Panel renderable

definition renderable_of :: "json \<Rightarrow> renderable" where
  "renderable_of v = (case v of JStr t \<Rightarrow> Text t | _ \<Rightarrow> Obj v)"

text \<open>
  What the agent takes from outside \<open>agent.py\<close>, over a state \<open>'w\<close> of the browser
  and the console:
  \<^item> \<open>json_loads\<close>: \<open>json.loads\<close>, \<open>None\<close> when it raises;
  \<^item> \<open>py_repr\<close>: Python's \<open>str\<close> of a parsed value that is not itself a string;
  \<^item> \<open>str_exn\<close>: Python's \<open>str\<close> of an exception;
  \<^item> \<open>browser_call f args w\<close>: \<open>self.browser.f(**args)\<close>, awaited, for the eight browser
    operations of \<open>tools_map\<close>, with what it returns or raises and the state it leaves;
  \<^item> \<open>console_input\<close>: the answer typed at \<open>console.input\<close>;
  \<^item> \<open>console_print r\<close>: the exception that \<open>console.print(r)\<close> raises, \<open>None\<close> when
    it prints.
  The calls of \<open>console.print\<close>, \<open>console.rule\<close> and \<open>console.input\<close> whose text
  is fixed (lines 62, 83, 121 and the prompt of line 195) are left out.
\<close>

record 'w env =
  json_loads :: "pystr \<Rightarrow> json option"
  py_repr :: "json \<Rightarrow> pystr"
  str_exn :: "exn \<Rightarrow> pystr"
  browser_call :: "pystr \<Rightarrow> json \<Rightarrow> 'w \<Rightarrow> (exn + pystr) \<times> 'w"
  console_input :: "'w \<Rightarrow> pystr \<times> 'w"
  console_print :: "renderable \<Rightarrow> exn option"

definition py_str :: "'w env \<Rightarrow> json \<Rightarrow> pystr" where
  "py_str env v = (case v of JStr t \<Rightarrow> t | _ \<Rightarrow> py_repr env v)"

text \<open>
  The fields of \<open>Agent\<close> that \<open>run\<close> reads and writes; \<open>agent_notes\<close> is
  \<open>self.notes\<close>.
\<close>

record 'w agent =
  history :: "message list"
  plan :: json
  agent_notes :: "pystr list"
  main_goal :: pystr
  has_planned :: bool
  last_action :: "(pystr \<times> pystr) option"
  repeated_action_count :: nat
  world :: 'w

definition prune_history :: "tokenizer \<Rightarrow> 'w agent \<Rightarrow> 'w agent" where
  "prune_history tk s = s\<lparr>history := pruned tk TOKEN_LIMIT (history s)\<rparr>"

text \<open>
  The line that \<open>_add_tool_result\<close> prints (line 171): the result when it has fewer
  than 200 characters, its length otherwise.
\<close>

definition result_line :: "pystr \<Rightarrow> renderable" where
  "result_line result =
     Text (ascii ''   '' @ [0x2139, 0xFE0F] @ ascii '' Result: [dim]''
           @ (if length result < 200 then result
              else ascii ''...large output ('' @ str_nat (length result) @ ascii '' chars)...'')
           @ ascii ''[/dim]'')"

text \<open>
  \<open>_add_tool_result\<close>: it prints the line, and then appends the entry. When the print
  raises, the exception leaves the method and nothing is appended.
\<close>

definition add_tool_result :: "'w env \<Rightarrow> pystr \<Rightarrow> pystr \<Rightarrow> 'w agent \<Rightarrow> exn + 'w agent" where
  "add_tool_result env tool_id result s =
     (case console_print env (result_line result) of
        Some e \<Rightarrow> Inl e
      | None \<Rightarrow>
          Inr (s\<lparr>history := history s @ [tool_message tool_id (stored_result result)]\<rparr>))"

text \<open>\<open>d.get(key, default)\<close>; only a dictionary has the method.\<close>

definition dict_get :: "json \<Rightarrow> pystr \<Rightarrow> json \<Rightarrow> exn + json" where
  "dict_get d key dflt =
     (case d of
        JObj kvs \<Rightarrow> Inr (case map_of kvs key of None \<Rightarrow> dflt | Some v \<Rightarrow> v)
      | _ \<Rightarrow> Inl (AttributeError d (ascii ''get'')))"

text \<open>
  \<open>func(**args)\<close> for a method with the one parameter \<open>param\<close>: \<open>args\<close> has to be a
  dictionary with exactly that key.
\<close>

definition bind_kwarg :: "pystr \<Rightarrow> pystr \<Rightarrow> json \<Rightarrow> exn + json" where
  "bind_kwarg f param args =
     (case args of
        JObj [(k, v)] \<Rightarrow> if k = param then Inr v else Inl (TypeError f args)
      | _ \<Rightarrow> Inl (TypeError f args))"

text \<open>The line that \<open>_tool_mark_done\<close> prints for the step it popped (line 185).\<close>

definition done_line :: "'w env \<Rightarrow> json \<Rightarrow> renderable" where
  "done_line env done_step =
     Text ([0x2705] @ ascii '' [bold strike]'' @ py_str env done_step @ ascii ''[/bold strike]'')"

text \<open>
  \<open>_tool_mark_done\<close>. A plan that is truthy and not a list has no \<open>pop(0)\<close>; when the
  print raises, the step is popped already and the note is not yet appended.
\<close>

definition tool_mark_done :: "'w env \<Rightarrow> json \<Rightarrow> 'w agent \<Rightarrow> (exn + pystr) \<times> 'w agent" where
  "tool_mark_done env result_summary s =
     (let note = ascii ''Step done: '' @ py_str env result_summary
      in if truthy (plan s) then
           (case plan s of
              JArr (done_step # rest) \<Rightarrow>
                (case console_print env (done_line env done_step) of
                   Some e \<Rightarrow> (Inl e, s\<lparr>plan := JArr rest\<rparr>)
                 | None \<Rightarrow>
                     (Inr (ascii ''Step marked done.''),
                      s\<lparr>plan := JArr rest, agent_notes := agent_notes s @ [note]\<rparr>))
            | JObj kvs \<Rightarrow> (Inl (KeyError (JInt 0)), s)
            | _ \<Rightarrow> (Inl (AttributeError (plan s) (ascii ''pop'')), s))
         else (Inr (ascii ''Step marked done.''), s\<lparr>agent_notes := agent_notes s @ [note]\<rparr>))"

definition tool_finish :: "json \<Rightarrow> 'w agent \<Rightarrow> (exn + pystr) \<times> 'w agent" where
  "tool_finish final_result s = (Inr (ascii ''Finished.''), s)"

text \<open>\<open>_tool_ask_user\<close>: it prints the question in a panel and reads the answer.\<close>

definition tool_ask_user :: "'w env \<Rightarrow> json \<Rightarrow> 'w agent \<Rightarrow> (exn + pystr) \<times> 'w agent" where
  "tool_ask_user env question s =
     (case console_print env (Panel (renderable_of question)) of
        Some e \<Rightarrow> (Inl e, s)
      | None \<Rightarrow>
          (case console_input env (world s) of
             (ans, w) \<Rightarrow>
               (Inr (ascii ''User Answer: '' @ ans),
                s\<lparr>world := w,
                  agent_notes := agent_notes s @
                    [ascii ''User Clarification (Q: '' @ py_str env question @ ascii '' | A: ''
                     @ ans @ ascii '')'']\<rparr>)))"

definition BROWSER_TOOLS :: "pystr list" where
  "BROWSER_TOOLS =
     [ascii ''open_url'', ascii ''scan_page'', ascii ''click_element'', ascii ''type_text'',
      ascii ''scroll'', ascii ''get_tabs'', ascii ''switch_tab'', ascii ''close_tab'']"

text \<open>
  \<open>func = self.tools_map.get(fname)\<close> and the call \<open>func(**args)\<close>; a name that is not
  in \<open>tools_map\<close> gives the error string.
\<close>

definition call_tool :: "'w env \<Rightarrow> pystr \<Rightarrow> json \<Rightarrow> 'w agent \<Rightarrow> (exn + pystr) \<times> 'w agent" where
  "call_tool env f args s =
     (if f = ascii ''mark_step_done'' then
        (case bind_kwarg f (ascii ''result_summary'') args of
           Inl e \<Rightarrow> (Inl e, s) | Inr v \<Rightarrow> tool_mark_done env v s)
      else if f = ascii ''finish_task'' then
        (case bind_kwarg f (ascii ''final_result'') args of
           Inl e \<Rightarrow> (Inl e, s) | Inr v \<Rightarrow> tool_finish v s)
      else if f = ascii ''ask_user'' then
        (case bind_kwarg f (ascii ''question'') args of
           Inl e \<Rightarrow> (Inl e, s) | Inr v \<Rightarrow> tool_ask_user env v s)
      else if f \<in> set BROWSER_TOOLS then
        (case browser_call env f args (world s) of (r, w) \<Rightarrow> (r, s\<lparr>world := w\<rparr>))
      else (Inr (ascii ''Error: Tool '' @ f @ ascii '' not found''), s))"

definition HINT :: pystr where
  "HINT = [10, 10, 0x1F4A1] @ ascii '' ADAPTIVE STRATEGY: ''"

definition get_error_hint :: "pystr \<Rightarrow> pystr \<Rightarrow> pystr" where
  "get_error_hint f error_msg =
     (if f = ascii ''click_element'' then
        (if contains (ascii ''outside of the viewport'') error_msg then
           HINT @ ascii ''The element is hidden. Call 'scroll(direction='down')' to reveal it.''
         else if contains (ascii ''obscured'') error_msg then
           HINT @ ascii ''Something covers the element. Try closing popups first.''
         else
           HINT @ ascii ''Click failed. Try: 1. Scroll closer. 2. Search by typing text instead. 3. Use 'open_url' to navigate directly.'')
      else if f = ascii ''scan_page'' then
        HINT @ ascii ''If the page is empty, try waiting a bit or reloading. If it's too big, ignore navigation elements and focus on content.''
      else if f = ascii ''type_text'' then
        HINT @ ascii ''Typing failed. Try clicking the input field first, then type again.''
      else [])"

definition with_hint :: "pystr \<Rightarrow> pystr \<Rightarrow> pystr" where
  "with_hint f result =
     (if contains (ascii ''Error'') result \<or> contains (ascii ''fail'') (lower result)
      then result @ get_error_hint f result else result)"

definition OVERRIDE :: pystr where
  "OVERRIDE =
     0x26D4 # ascii '' SYSTEM OVERRIDE: You are looping the exact same action 3 times. STOP. You MUST choose a DIFFERENT tool or strategy.''"

definition error_result :: "'w env \<Rightarrow> pystr \<Rightarrow> exn \<Rightarrow> pystr" where
  "error_result env f e = ascii ''Error executing '' @ f @ ascii '': '' @ str_exn env e"

text \<open>
  How the body of \<open>for tool_call in msg.tool_calls\<close> leaves: to the next tool call, by
  \<open>break\<close>, by \<open>return\<close>, or by an exception that nothing in \<open>run\<close> catches.
\<close>

datatype flow = Next | Break | Return | Raise exn

text \<open>
  The loop guard and the dispatch: lines 112 to 135 of \<open>run\<close>, from
  \<open>current_action = (fname, str(args))\<close> to \<open>self.last_action = current_action\<close>. An
  exception leaves before \<open>last_action\<close> is assigned.
\<close>

definition guarded_call ::
  "'w env \<Rightarrow> pystr \<Rightarrow> json \<Rightarrow> 'w agent \<Rightarrow> (exn + pystr) \<times> 'w agent" where
  "guarded_call env f args s =
     (let current_action = (f, py_str env args);
          s1 = s\<lparr>repeated_action_count :=
                   (if Some current_action = last_action s then repeated_action_count s + 1
                    else 0)\<rparr>
      in case (if repeated_action_count s1 \<ge> 3 then (Inr OVERRIDE, s1)
               else call_tool env f args s1) of
           (Inl e, s2) \<Rightarrow> (Inl e, s2)
         | (Inr result, s2) \<Rightarrow>
             (Inr (with_hint f result), s2\<lparr>last_action := Some current_action\<rparr>))"

text \<open>The lines that \<open>run\<close> prints with a text that is not fixed.\<close>

definition task_line :: "pystr \<Rightarrow> renderable" where
  "task_line task = Panel (Text (ascii ''[bold cyan]Task:[/bold cyan] '' @ task))"

definition api_error_line :: "pystr \<Rightarrow> renderable" where
  "api_error_line e = Text (ascii ''[bold red]API Error: '' @ e @ ascii ''[/bold red]'')"

definition call_line :: "tool_call \<Rightarrow> renderable" where
  "call_line tc =
     Text ([0x1F527] @ ascii '' Call: [bold green]'' @ fname tc @ ascii ''[/bold green] ''
           @ take 100 (arguments tc))"

definition plan_line :: "'w env \<Rightarrow> json \<Rightarrow> renderable" where
  "plan_line env steps = Panel (Text (ascii ''Plan set: '' @ py_str env steps))"

definition error_line :: "pystr \<Rightarrow> renderable" where
  "error_line result = Text (ascii ''[red]'' @ result @ ascii ''[/red]'')"

text \<open>
  The \<open>try\<close> block of one tool call: the value of \<open>result\<close> or the exception, the way
  the loop goes on, and the state. For \<open>set_plan\<close> the plan is assigned before the
  panel of line 102 is printed and the history is emptied after it; for \<open>finish_task\<close>
  the panel of line 109 is printed before \<open>return\<close>.
\<close>

definition try_tool_call ::
  "'w env \<Rightarrow> tool_call \<Rightarrow> 'w agent \<Rightarrow> (exn + pystr option) \<times> flow \<times> 'w agent" where
  "try_tool_call env tc s =
     (case json_loads env (arguments tc) of
        None \<Rightarrow> (Inl (JSONDecodeError (arguments tc)), Next, s)
      | Some args \<Rightarrow>
          if fname tc = ascii ''set_plan'' then
            (case dict_get args (ascii ''steps'') (JArr []) of
               Inl e \<Rightarrow> (Inl e, Next, s)
             | Inr steps \<Rightarrow>
                 (case console_print env (plan_line env steps) of
                    Some e \<Rightarrow> (Inl e, Next, s\<lparr>plan := steps\<rparr>)
                  | None \<Rightarrow>
                      (Inr None, Break,
                       s\<lparr>plan := steps, history := [], has_planned := True\<rparr>)))
          else if fname tc = ascii ''finish_task'' then
            (case dict_get args (ascii ''final_result'') (JStr (ascii ''Done'')) of
               Inl e \<Rightarrow> (Inl e, Next, s)
             | Inr final_result \<Rightarrow>
                 (case console_print env (Panel (renderable_of final_result)) of
                    Some e \<Rightarrow> (Inl e, Next, s)
                  | None \<Rightarrow> (Inr None, Return, s)))
          else
            (case guarded_call env (fname tc) args s of
               (Inl e, s2) \<Rightarrow> (Inl e, Next, s2)
             | (Inr result, s2) \<Rightarrow> (Inr (Some result), Next, s2)))"

text \<open>
  Line 142: \<open>_add_tool_result\<close> after the \<open>try\<close> statement; an exception of it leaves
  \<open>run\<close>.
\<close>

definition append_result :: "'w env \<Rightarrow> pystr \<Rightarrow> pystr \<Rightarrow> 'w agent \<Rightarrow> flow \<times> 'w agent" where
  "append_result env tool_id result s =
     (case add_tool_result env tool_id result s of
        Inl e \<Rightarrow> (Raise e, s)
      | Inr s2 \<Rightarrow> (Next, s2))"

text \<open>
  One pass of the body of the \<open>for\<close> loop: the print of line 95, which stands before
  the \<open>try\<close>; the \<open>try\<close> block; its \<open>except\<close> clause, which makes the error string the
  result and prints it (line 139); and the call of \<open>_add_tool_result\<close>. \<open>break\<close> and
  \<open>return\<close> leave the body before that call. An exception of a print outside the
  \<open>try\<close> block leaves \<open>run\<close>.
\<close>

definition process_tool_call :: "'w env \<Rightarrow> tool_call \<Rightarrow> 'w agent \<Rightarrow> flow \<times> 'w agent" where
  "process_tool_call env tc s =
     (case console_print env (call_line tc) of
        Some e \<Rightarrow> (Raise e, s)
      | None \<Rightarrow>
          (case try_tool_call env tc s of
             (Inl e, fl, s2) \<Rightarrow>
               (case console_print env (error_line (error_result env (fname tc) e)) of
                  Some e2 \<Rightarrow> (Raise e2, s2)
                | None \<Rightarrow> append_result env (call_id tc) (error_result env (fname tc) e) s2)
           | (Inr (Some result), fl, s2) \<Rightarrow> append_result env (call_id tc) result s2
           | (Inr None, fl, s2) \<Rightarrow> (fl, s2)))"

fun process_tool_calls :: "'w env \<Rightarrow> tool_call list \<Rightarrow> 'w agent \<Rightarrow> flow \<times> 'w agent" where
  "process_tool_calls env [] s = (Next, s)"
| "process_tool_calls env (tc # tcs) s =
     (case process_tool_call env tc s of
        (Next, s2) \<Rightarrow> process_tool_calls env tcs s2
      | (fl, s2) \<Rightarrow> (fl, s2))"

text \<open>
  The answer of the model endpoint in one iteration: the request raised an exception
  with a message, or it gave a message with its \<open>content\<close> and its \<open>tool_calls\<close>.
\<close>

datatype reply = ApiError pystr | Reply "pystr option" "tool_call list"

datatype role = PLANNER | WORKER

definition current_role :: "'w agent \<Rightarrow> role" where
  "current_role s = (if \<not> truthy (plan s) \<and> \<not> has_planned s then PLANNER else WORKER)"

definition user_message :: "pystr \<Rightarrow> message" where
  "user_message c =
     \<lparr>msg_role = ascii ''user'', msg_content = Some c, msg_tool_calls = [],
      msg_tool_call_id = None\<rparr>"

definition assistant_message :: "pystr option \<Rightarrow> tool_call list \<Rightarrow> message" where
  "assistant_message c tcs =
     \<lparr>msg_role = ascii ''assistant'', msg_content = c, msg_tool_calls = tcs,
      msg_tool_call_id = None\<rparr>"

text \<open>Lines 79 and 80: a content that is not empty is printed as Markdown in a panel.\<close>

definition print_thought :: "'w env \<Rightarrow> pystr option \<Rightarrow> exn option" where
  "print_thought env c =
     (case c of
        None \<Rightarrow> None
      | Some t \<Rightarrow> if t \<noteq> [] then console_print env (Panel (Markdown t)) else None)"

text \<open>One iteration of \<open>for i in range(cfg.MAX_ITERATIONS)\<close>.\<close>

definition iteration :: "'w env \<Rightarrow> tokenizer \<Rightarrow> reply \<Rightarrow> 'w agent \<Rightarrow> flow \<times> 'w agent" where
  "iteration env tk r s =
     (let s0 = prune_history tk s; rl = current_role s0
      in case r of
           ApiError e \<Rightarrow>
             (case console_print env (api_error_line e) of
                Some e2 \<Rightarrow> (Raise e2, s0)
              | None \<Rightarrow> (Next, s0))
         | Reply c tcs \<Rightarrow>
             (let s1 = s0\<lparr>history := history s0 @ [assistant_message c tcs]\<rparr>
              in case print_thought env c of
                   Some e \<Rightarrow> (Raise e, s1)
                 | None \<Rightarrow>
                     if tcs = [] then
                       (Next,
                        s1\<lparr>history := history s1 @
                             [user_message
                                (if rl = PLANNER
                                 then ascii ''You must call 'set_plan' or 'ask_user'.''
                                 else ascii ''Action required. Please call a tool to proceed.'')]\<rparr>)
                     else process_tool_calls env tcs s1))"

definition MAX_ITERATIONS :: nat where
  "MAX_ITERATIONS = 50"

definition start_task :: "pystr \<Rightarrow> 'w agent \<Rightarrow> 'w agent" where
  "start_task task s =
     s\<lparr>main_goal := task, plan := JArr [], history := [], agent_notes := [], has_planned := False,
       last_action := None, repeated_action_count := 0\<rparr>"

text \<open>
  The iterations that are left, \<open>n\<close> of them, from iteration \<open>i\<close> on; \<open>llm i\<close> is the
  answer of the model endpoint in iteration \<open>i\<close>. The result says how \<open>run\<close> ends: by
  \<open>Next\<close> when the iterations are used up, by \<open>Return\<close>, or by an exception.
\<close>

fun run_from ::
  "'w env \<Rightarrow> tokenizer \<Rightarrow> (nat \<Rightarrow> reply) \<Rightarrow> nat \<Rightarrow> nat \<Rightarrow> 'w agent \<Rightarrow> flow \<times> 'w agent" where
  "run_from env tk llm 0 i s = (Next, s)"
| "run_from env tk llm (Suc n) i s =
     (case iteration env tk (llm i) s of
        (Return, s2) \<Rightarrow> (Return, s2)
      | (Raise e, s2) \<Rightarrow> (Raise e, s2)
      | (fl, s2) \<Rightarrow> run_from env tk llm n (Suc i) s2)"

definition run ::
  "'w env \<Rightarrow> tokenizer \<Rightarrow> (nat \<Rightarrow> reply) \<Rightarrow> pystr \<Rightarrow> 'w agent \<Rightarrow> flow \<times> 'w agent" where
  "run env tk llm task s =
     (case console_print env (task_line task) of
        Some e \<Rightarrow> (Raise e, start_task task s)
      | None \<Rightarrow> run_from env tk llm MAX_ITERATIONS 0 (start_task task s))"

section \<open>The accessibility parser (src/src/accessibility.py)\<close>

record element_info =
  el_id :: int
  el_role :: pystr
  el_name :: pystr
  el_attributes :: pystr

text \<open>
  \<open>elements_map\<close> is a dictionary from ids to elements, kept in insertion order:
  \<open>len\<close> is \<open>length\<close>, \<open>get\<close> is \<open>map_of\<close>, an assignment is \<open>AList.update\<close> and
  \<open>clear()\<close> leaves \<open>[]\<close>.
\<close>

type_synonym elements = "(int \<times> element_info) list"

definition INTERACTIVE_ROLES :: "pystr list" where
  "INTERACTIVE_ROLES =
     [ascii ''button'', ascii ''link'', ascii ''textbox'', ascii ''searchbox'',
      ascii ''combobox'', ascii ''checkbox'', ascii ''radio'', ascii ''slider'', ascii ''tab'',
      ascii ''menuitem'', ascii ''switch'', ascii ''treeitem'']"

definition CONTEXT_ROLES :: "pystr list" where
  "CONTEXT_ROLES =
     [ascii ''heading'', ascii ''img'', ascii ''statictext'', ascii ''text'',
      ascii ''paragraph'', ascii ''listitem'']"

text \<open>
  A node of the accessibility snapshot: a dictionary with the optional keys \<open>role\<close>,
  \<open>name\<close>, \<open>children\<close>, \<open>value\<close> (a string or a number), \<open>checked\<close> (a boolean or
  \<open>"mixed"\<close>), \<open>level\<close> and \<open>disabled\<close>. A node without the key \<open>children\<close> has the
  children \<open>[]\<close>, which is what \<open>node.get("children", [])\<close> reads.
\<close>

datatype ax_value = VStr pystr | VNum real

datatype ax_checked = CBool bool | CMixed

datatype node =
  Node (n_role: "pystr option") (n_name: "pystr option") (n_children: "node list")
       (n_value: "ax_value option") (n_checked: "ax_checked option") (n_level: "int option")
       (n_disabled: "bool option")

definition role_of :: "node \<Rightarrow> pystr" where
  "role_of n = (case n_role n of None \<Rightarrow> ascii ''generic'' | Some r \<Rightarrow> r)"

definition stripped_name :: "node \<Rightarrow> pystr" where
  "stripped_name n = strip (case n_name n of None \<Rightarrow> [] | Some t \<Rightarrow> t)"

text \<open>
  \<open>_collect_text\<close>: \<open>collect_parts\<close> is the list \<open>text\<close> that its loop builds, one
  entry for each child.
\<close>

fun collect_parts :: "node list \<Rightarrow> pystr list"
  and collect_text :: "node list \<Rightarrow> pystr" where
  "collect_parts [] = []"
| "collect_parts (Node r nm ch v c l d # rest) =
     (let name = strip (case nm of None \<Rightarrow> [] | Some t \<Rightarrow> t)
      in (if name \<noteq> [] then name else collect_text ch) # collect_parts rest)"
| "collect_text children =
     strip (join (ascii '' '') (filter (\<lambda>t. t \<noteq> []) (collect_parts children)))"

text \<open>The name after lines 47 to 56 of \<open>_traverse\<close>.\<close>

definition is_interactive :: "node \<Rightarrow> bool" where
  "is_interactive n = (role_of n \<in> set INTERACTIVE_ROLES)"

definition synth_name :: "node \<Rightarrow> pystr" where
  "synth_name n =
     (if stripped_name n = [] \<and> n_children n \<noteq> [] \<and> role_of n \<in> set INTERACTIVE_ROLES
      then collect_text (n_children n) else stripped_name n)"

definition is_heading :: "node \<Rightarrow> bool" where
  "is_heading n = (role_of n = ascii ''heading'')"

definition is_content :: "node \<Rightarrow> bool" where
  "is_content n =
     (role_of n \<in> set CONTEXT_ROLES \<and> synth_name n \<noteq> [] \<and> length (synth_name n) > 2)"

definition value_truthy :: "ax_value option \<Rightarrow> bool" where
  "value_truthy v =
     (case v of None \<Rightarrow> False | Some (VStr t) \<Rightarrow> t \<noteq> [] | Some (VNum x) \<Rightarrow> x \<noteq> 0)"

text \<open>\<open>str(value)\<close>; \<open>fs\<close> is Python's \<open>str\<close> on a float.\<close>

definition str_value :: "(real \<Rightarrow> pystr) \<Rightarrow> ax_value option \<Rightarrow> pystr" where
  "str_value fs v =
     (case v of None \<Rightarrow> ascii ''None'' | Some (VStr t) \<Rightarrow> t | Some (VNum x) \<Rightarrow> fs x)"

text \<open>The name after line 69: what is stored in \<open>elements_map\<close>.\<close>

definition final_name :: "(real \<Rightarrow> pystr) \<Rightarrow> node \<Rightarrow> pystr" where
  "final_name fs n =
     (if role_of n \<in> set [ascii ''textbox'', ascii ''searchbox''] \<and> synth_name n = []
         \<and> value_truthy (n_value n)
      then ascii ''[Value: '' @ str_value fs (n_value n) @ ascii '']''
      else synth_name n)"

definition node_attrs :: "(real \<Rightarrow> pystr) \<Rightarrow> node \<Rightarrow> pystr list" where
  "node_attrs fs n =
     (if value_truthy (n_value n) \<and> str_value fs (n_value n) \<noteq> final_name fs n
      then [ascii ''val='' @ str_value fs (n_value n)] else []) @
     (if n_checked n = Some (CBool True) \<or> n_checked n = Some CMixed
      then [ascii ''checked''] else []) @
     (if n_disabled n = Some True then [ascii ''disabled''] else []) @
     (case n_level n of
        None \<Rightarrow> []
      | Some lv \<Rightarrow> if lv \<noteq> 0 then [ascii ''h'' @ str_int lv] else [])"

definition attr_str :: "(real \<Rightarrow> pystr) \<Rightarrow> node \<Rightarrow> pystr" where
  "attr_str fs n =
     (if node_attrs fs n \<noteq> []
      then ascii '' ('' @ join (ascii '', '') (node_attrs fs n) @ ascii '')'' else [])"

text \<open>
  \<open>display_name\<close>: the name with each newline replaced by a space, cut to 77
  characters and three dots when it has more than 80.
\<close>

definition display_name :: "pystr \<Rightarrow> pystr" where
  "display_name name =
     (let d = map (\<lambda>c. if c = 10 then 32 else c) name
      in if length d > 80 then take 77 d @ ascii ''...'' else d)"

record traversal =
  elements_map :: elements
  report :: "pystr list"

text \<open>
  Lines 67 to 95 of \<open>_traverse\<close>: what a node that is interactive, a heading or
  content adds to \<open>elements_map\<close> and to the report.
\<close>

definition visit :: "(real \<Rightarrow> pystr) \<Rightarrow> node \<Rightarrow> traversal \<Rightarrow> traversal" where
  "visit fs n st =
     (let name = final_name fs n;
          shown = display_name name;
          new_id = (if is_interactive n then Some (int (length (elements_map st)) + 1) else None);
          st1 = (case new_id of
                   None \<Rightarrow> st
                 | Some i \<Rightarrow>
                     st\<lparr>elements_map :=
                          AList.update i
                            \<lparr>el_id = i, el_role = role_of n, el_name = name, el_attributes = []\<rparr>
                            (elements_map st)\<rparr>)
      in if is_heading n then
           st1\<lparr>report := report st1 @
                [10 # ascii ''=== '' @ upper (role_of n) @ ascii '' '' @ shown @ ascii '' ==='']\<rparr>
         else
           (case new_id of
              Some i \<Rightarrow>
                st1\<lparr>report := report st1 @
                     [str_int i @ ascii ''.'' @ ascii '' ['' @ role_of n @ ascii ''] '' @ shown
                      @ attr_str fs n]\<rparr>
            | None \<Rightarrow>
                if list_ex (\<lambda>x. contains x shown) [[0x20BD], ascii ''$'', [0x20AC]]
                   \<or> length shown > 20
                then st1\<lparr>report := report st1 @ [ascii ''    (txt) '' @ shown]\<rparr>
                else st1))"

text \<open>
  \<open>_traverse\<close>, with \<open>traverse_children\<close> for its loops
  \<open>for child in children: self._traverse(child, report)\<close>.
\<close>

fun traverse :: "(real \<Rightarrow> pystr) \<Rightarrow> node \<Rightarrow> traversal \<Rightarrow> traversal"
  and traverse_children :: "(real \<Rightarrow> pystr) \<Rightarrow> node list \<Rightarrow> traversal \<Rightarrow> traversal" where
  "traverse fs (Node r nm ch v c l d) st =
     (if length (elements_map st) \<ge> 800 then st
      else if \<not> (is_interactive (Node r nm ch v c l d) \<or> is_heading (Node r nm ch v c l d)
                 \<or> is_content (Node r nm ch v c l d))
      then traverse_children fs ch st
      else traverse_children fs ch (visit fs (Node r nm ch v c l d) st))"
| "traverse_children fs [] st = st"
| "traverse_children fs (child # rest) st = traverse_children fs rest (traverse fs child st)"

text \<open>
  \<open>scan\<close>, given what \<open>page.accessibility.snapshot\<close> did: it raised with a message
  (\<open>Inl\<close>), it returned a value for which \<open>not snapshot\<close> holds, which is \<open>None\<close> or
  the empty dictionary (\<open>Inr None\<close>), or it returned a dictionary with at least one
  key, the root node (\<open>Inr (Some tree)\<close>). The result is the string returned and the
  new \<open>elements_map\<close>.
\<close>

definition scan :: "(real \<Rightarrow> pystr) \<Rightarrow> pystr + node option \<Rightarrow> elements \<Rightarrow> pystr \<times> elements" where
  "scan fs snapshot old =
     (let cleared = [] :: elements
      in case snapshot of
           Inl e \<Rightarrow> (ascii ''Error scanning page: '' @ e, cleared)
         | Inr None \<Rightarrow> (ascii ''Accessibility tree is empty.'', cleared)
         | Inr (Some tree) \<Rightarrow>
             (let st = traverse fs tree \<lparr>elements_map = cleared, report = []\<rparr>
              in if report st = [] then
                   (ascii ''No interactive elements found. Try scrolling.'', elements_map st)
                 else
                   (ascii ''Interactive Elements ('' @ str_nat (length (elements_map st))
                    @ ascii '' items):'' @ [10] @ join [10] (report st),
                    elements_map st)))"

section \<open>The browser service (src/src/browser.py)\<close>

text \<open>
  The locators the service asks the page for: \<open>get_by_role(role).first\<close>,
  \<open>get_by_role(role, name=name).first\<close> and \<open>get_by_text(text).first\<close>.
\<close>

datatype locator = ByRole pystr "pystr option" | ByText pystr

text \<open>
  The operations of the Playwright page that the service awaits, over a state \<open>'p\<close> of
  the page. An operation that can raise gives the message of its exception: on the
  left of a sum, or as \<open>Some\<close> when it returns nothing. \<open>dismiss_overlays\<close> is
  \<open>_dismiss_overlays\<close>, which catches every exception; \<open>float_str\<close> is Python's \<open>str\<close>
  on a float.
\<close>

record 'p page_api =
  snapshot :: "'p \<Rightarrow> (pystr + node option) \<times> 'p"
  dismiss_overlays :: "'p \<Rightarrow> 'p"
  loc_count :: "locator \<Rightarrow> 'p \<Rightarrow> (pystr + nat) \<times> 'p"
  scroll_into_view_if_needed :: "locator \<Rightarrow> 'p \<Rightarrow> pystr option \<times> 'p"
  loc_click :: "locator \<Rightarrow> bool \<Rightarrow> 'p \<Rightarrow> pystr option \<times> 'p"
  loc_evaluate_click :: "locator \<Rightarrow> 'p \<Rightarrow> pystr option \<times> 'p"
  loc_fill :: "locator \<Rightarrow> pystr \<Rightarrow> 'p \<Rightarrow> pystr option \<times> 'p"
  keyboard_press_enter :: "'p \<Rightarrow> pystr option \<times> 'p"
  float_str :: "real \<Rightarrow> pystr"

text \<open>
  The fields of \<open>BrowserService\<close> that the three operations use: \<open>self.page\<close> and
  \<open>self.parser.elements_map\<close>.
\<close>

record 'p browser =
  page :: "'p option"
  parser :: elements

definition scan_page :: "'p page_api \<Rightarrow> 'p browser \<Rightarrow> pystr \<times> 'p browser" where
  "scan_page api b =
     (case page b of
        None \<Rightarrow> (ascii ''No page.'', b)
      | Some p \<Rightarrow>
          (case snapshot api (dismiss_overlays api p) of
             (snap, p2) \<Rightarrow>
               (case scan (float_str api) snap (parser b) of
                  (res, em) \<Rightarrow> (res, \<lparr>page = Some p2, parser = em\<rparr>))))"

definition CROSS :: pystr where
  "CROSS = [0x274C]"

definition WARNING :: pystr where
  "WARNING = [0x26A0, 0xFE0F]"

definition not_found :: "int \<Rightarrow> pystr" where
  "not_found element_id =
     CROSS @ ascii '' Error: ID '' @ str_int element_id
     @ ascii '' not found. Suggestion: Call 'scan_page' to refresh IDs.''"

text \<open>The first locator of \<open>click_element\<close> (lines 73 to 76).\<close>

definition click_locator :: "element_info \<Rightarrow> locator" where
  "click_locator el_info =
     (if el_name el_info \<noteq> [] then ByRole (el_role el_info) (Some (el_name el_info))
      else ByRole (el_role el_info) None)"

text \<open>The \<open>try\<close> blocks of \<open>click_element\<close> (lines 84 to 100).\<close>

definition click_attempts :: "'p page_api \<Rightarrow> element_info \<Rightarrow> locator \<Rightarrow> 'p \<Rightarrow> pystr \<times> 'p" where
  "click_attempts api el_info loc p =
     (let quoted = [39] @ el_name el_info @ [39];
          standard =
            (case scroll_into_view_if_needed api loc p of
               (Some e, p1) \<Rightarrow> (Some e, p1)
             | (None, p1) \<Rightarrow> loc_click api loc False p1)
      in case standard of
           (None, p2) \<Rightarrow>
             ([0x2705] @ ascii '' Clicked '' @ el_role el_info @ ascii '' '' @ quoted
              @ ascii '' (Standard)'', p2)
         | (Some e_standard, p2) \<Rightarrow>
             (case loc_click api loc True p2 of
                (None, p3) \<Rightarrow>
                  (WARNING @ ascii '' Clicked '' @ el_role el_info @ ascii '' '' @ quoted
                   @ ascii '' (Forced - element was obscured)'', p3)
              | (Some e_force, p3) \<Rightarrow>
                  (case loc_evaluate_click api loc p3 of
                     (None, p4) \<Rightarrow>
                       (WARNING @ ascii '' Clicked '' @ el_role el_info @ ascii '' '' @ quoted
                        @ ascii '' (via JS Injection)'', p4)
                   | (Some e_js, p4) \<Rightarrow>
                       (CROSS @ ascii '' CRITICAL FAIL: Could not click '' @ quoted
                        @ ascii ''.'' @ [10] @ ascii ''Reasons:'' @ [10]
                        @ ascii ''1. Standard: '' @ e_standard @ [10]
                        @ ascii ''2. Force: '' @ e_force @ [10]
                        @ ascii ''3. JS: '' @ e_js @ [10, 0x1F449]
                        @ ascii '' ADVICE: Don't try clicking this again. Use 'scroll' or check if it's the right element.'',
                        p4))))"

text \<open>
  \<open>click_element\<close>: the string it returns or the exception it raises, and the state
  it leaves. Without a page, \<open>self.page.get_by_role\<close> raises.
\<close>

definition click_element :: "'p page_api \<Rightarrow> int \<Rightarrow> 'p browser \<Rightarrow> (exn + pystr) \<times> 'p browser" where
  "click_element api element_id b =
     (case map_of (parser b) element_id of
        None \<Rightarrow> (Inr (not_found element_id), b)
      | Some el_info \<Rightarrow>
          (case page b of
             None \<Rightarrow> (Inl (AttributeError JNull (ascii ''get_by_role'')), b)
           | Some p \<Rightarrow>
               (case loc_count api (click_locator el_info) p of
                  (Inl e, p1) \<Rightarrow> (Inl (ToolError e), b\<lparr>page := Some p1\<rparr>)
                | (Inr n, p1) \<Rightarrow>
                    (let loc = (if n = 0 \<and> el_name el_info \<noteq> [] then ByText (el_name el_info)
                                else click_locator el_info)
                     in case loc_count api loc p1 of
                          (Inl e, p2) \<Rightarrow> (Inl (ToolError e), b\<lparr>page := Some p2\<rparr>)
                        | (Inr n2, p2) \<Rightarrow>
                            if n2 = 0 then
                              (Inr (CROSS @ ascii '' Error: Element '' @ [39] @ el_name el_info
                                    @ [39]
                                    @ ascii '' disappeared from DOM. Suggestion: Page might have updated. Call 'scan_page'.''),
                               b\<lparr>page := Some p2\<rparr>)
                            else
                              (case click_attempts api el_info loc p2 of
                                 (res, p3) \<Rightarrow> (Inr res, b\<lparr>page := Some p3\<rparr>))))))"




section \<open>Notions used to state the properties\<close>

text \<open>The nodes of a tree in the order a depth-first traversal meets them.\<close>

fun preorder :: "node \<Rightarrow> node list"
  and preorder_list :: "node list \<Rightarrow> node list" where
  "preorder (Node r nm ch v c l d) = Node r nm ch v c l d # preorder_list ch"
| "preorder_list [] = []"
| "preorder_list (child # rest) = preorder child @ preorder_list rest"

text \<open>
  The non-empty names of all the nodes below a list of children, depth-first: the
  names that the specification says are concatenated.
\<close>

fun descendant_names :: "node list \<Rightarrow> pystr list" where
  "descendant_names [] = []"
| "descendant_names (Node r nm ch v c l d # rest) =
     (if stripped_name (Node r nm ch v c l d) \<noteq> [] then [stripped_name (Node r nm ch v c l d)]
      else [])
     @ descendant_names ch @ descendant_names rest"

text \<open>
  The names of the nearest named nodes below a list of children, depth-first: a node
  with a non-empty name gives its name and hides what is below it, a node without one
  gives what its children give.
\<close>

fun nearest_names :: "node list \<Rightarrow> pystr list" where
  "nearest_names [] = []"
| "nearest_names (Node r nm ch v c l d # rest) =
     (if stripped_name (Node r nm ch v c l d) \<noteq> [] then [stripped_name (Node r nm ch v c l d)]
      else nearest_names ch)
     @ nearest_names rest"

text \<open>
  The entries of \<open>elements_map\<close> for a list of nodes that are registered one after the
  other when \<open>k\<close> elements are there already.
\<close>

fun entries :: "(real \<Rightarrow> pystr) \<Rightarrow> nat \<Rightarrow> node list \<Rightarrow> elements" where
  "entries fs k [] = []"
| "entries fs k (n # ns) =
     (int k + 1,
      \<lparr>el_id = int k + 1, el_role = role_of n, el_name = final_name fs n, el_attributes = []\<rparr>)
     # entries fs (Suc k) ns"

text \<open>The interactive nodes of a tree that one scan registers: the first 800.\<close>

definition registered :: "node \<Rightarrow> node list" where
  "registered t = take 800 (filter is_interactive (preorder t))"

text \<open>A string without white space at its two ends.\<close>

definition trimmed :: "pystr \<Rightarrow> bool" where
  "trimmed t = (t \<noteq> [] \<and> \<not> is_space (hd t) \<and> \<not> is_space (last t))"

text \<open>The ids of an \<open>elements_map\<close> are 1, 2, ... in the order of insertion.\<close>

definition ids_dense :: "elements \<Rightarrow> bool" where
  "ids_dense em = (map fst em = map int [1..<Suc (length em)])"

section \<open>Concrete inputs\<close>

text \<open>A tokenizer that makes one token of each character.\<close>

definition char_tokenizer :: tokenizer where
  "char_tokenizer = \<lparr>count_tokens = length, str_tool_calls = (\<lambda>tcs. [])\<rparr>"

definition big_message :: message where
  "big_message = assistant_message (Some (replicate 100001 97)) []"

definition small_message :: message where
  "small_message = user_message (ascii ''Action required. Please call a tool to proceed.'')"

text \<open>
  The console on the lines printed below: a text with the closing tag \<open>[/b]\<close>, which
  closes nothing in them, raises; a value that is not a string raises inside a panel;
  everything else prints.
\<close>

fun demo_print :: "renderable \<Rightarrow> exn option" where
  "demo_print (Text t) = (if contains (ascii ''[/b]'') t then Some (MarkupError t) else None)"
| "demo_print (Obj v) = None"
| "demo_print (Markdown t) = None"
| "demo_print (Panel (Obj v)) = Some (NotRenderableError v)"
| "demo_print (Panel r) = demo_print r"

text \<open>
  An environment over a counter of the browser operations that were run. \<open>json.loads\<close>
  is given on the three argument texts used below that it accepts, \<open>{}\<close>,
  \<open>{"steps": ["Search"]}\<close> and \<open>[1]\<close>, and fails on the others; \<open>str\<close> of an
  exception is given for the two exceptions whose message is used; every browser
  operation returns what \<open>scan_page\<close> returns for an empty tree.
\<close>

definition steps_text :: pystr where
  "steps_text = ascii ''{'' @ [34] @ ascii ''steps'' @ [34] @ ascii '': ['' @ [34] @ ascii ''Search''
     @ [34] @ ascii '']}''"

definition demo_env :: "nat env" where
  "demo_env =
     \<lparr>json_loads =
        (\<lambda>t. if t = ascii ''{}'' then Some (JObj [])
             else if t = steps_text
             then Some (JObj [(ascii ''steps'', JArr [JStr (ascii ''Search'')])])
             else if t = ascii ''[1]'' then Some (JArr [JInt 1])
             else None),
      py_repr = (\<lambda>v. if v = JObj [] then ascii ''{}''
                     else if v = JArr [JInt 1] then ascii ''[1]''
                     else [91, 39] @ ascii ''Search'' @ [39, 93]),
      str_exn =
        (\<lambda>e. case e of
               AttributeError v a \<Rightarrow>
                 [39] @ ascii ''list'' @ [39] @ ascii '' object has no attribute '' @ [39] @ a @ [39]
             | _ \<Rightarrow> ascii ''Expecting property name enclosed in double quotes: line 1 column 2 (char 1)''),
      browser_call = (\<lambda>f args w. (Inr (ascii ''Accessibility tree is empty.''), Suc w)),
      console_input = (\<lambda>w. (ascii ''yes'', w)),
      console_print = demo_print\<rparr>"

definition demo_agent :: "nat agent" where
  "demo_agent =
     \<lparr>history = [], plan = JArr [], agent_notes = [], main_goal = ascii ''Find a phone'',
      has_planned = False, last_action = None, repeated_action_count = 0, world = 0\<rparr>"

definition scan_call :: tool_call where
  "scan_call = \<lparr>call_id = ascii ''call_1'', fname = ascii ''scan_page'', arguments = ascii ''{}''\<rparr>"

definition plan_call :: tool_call where
  "plan_call = \<lparr>call_id = ascii ''call_2'', fname = ascii ''set_plan'', arguments = steps_text\<rparr>"

definition list_call :: tool_call where
  "list_call = \<lparr>call_id = ascii ''call_4'', fname = ascii ''set_plan'', arguments = ascii ''[1]''\<rparr>"

definition markup_call :: tool_call where
  "markup_call =
     \<lparr>call_id = ascii ''call_5'', fname = ascii ''click_element'',
      arguments = ascii ''{oops [/b]''\<rparr>"

text \<open>The error string for \<open>set_plan\<close> with arguments that are a list.\<close>

definition list_error :: pystr where
  "list_error =
     ascii ''Error executing set_plan: '' @ [39] @ ascii ''list'' @ [39]
     @ ascii '' object has no attribute '' @ [39] @ ascii ''get'' @ [39]"

definition broken_call :: tool_call where
  "broken_call =
     \<lparr>call_id = ascii ''call_3'', fname = ascii ''click_element'', arguments = ascii ''{oops''\<rparr>"

text \<open>
  A button without a name over a text node named \<open>Hello\<close>, which has a child named
  \<open>World\<close>.
\<close>

definition leaf :: "string \<Rightarrow> string \<Rightarrow> node list \<Rightarrow> node" where
  "leaf r nm ch = Node (Some (ascii r)) (Some (ascii nm)) ch None None None None"

definition hello_button :: node where
  "hello_button = leaf ''button'' [] [leaf ''text'' ''Hello'' [leaf ''text'' ''World'' []]]"


definition no_float :: "real \<Rightarrow> pystr" where
  "no_float x = ascii ''0.0''"

text \<open>
  A page whose snapshot is the tree \<open>hello_button\<close> and on which every operation
  succeeds, and a browser whose parser holds two elements of an earlier scan.
\<close>

definition demo_api :: "unit page_api" where
  "demo_api =
     \<lparr>snapshot = (\<lambda>p. (Inr (Some hello_button), p)),
      dismiss_overlays = (\<lambda>p. p),
      loc_count = (\<lambda>loc p. (Inr 1, p)),
      scroll_into_view_if_needed = (\<lambda>loc p. (None, p)),
      loc_click = (\<lambda>loc force p. (None, p)),
      loc_evaluate_click = (\<lambda>loc p. (None, p)),
      loc_fill = (\<lambda>loc t p. (None, p)),
      keyboard_press_enter = (\<lambda>p. (None, p)),
      float_str = no_float\<rparr>"

definition old_browser :: "unit browser" where
  "old_browser =
     \<lparr>page = Some (),
      parser = entries no_float 0 [leaf ''link'' ''Home'' [], leaf ''button'' ''Buy'' []]\<rparr>"




text \<open>
  The agent after the task was started and the same call of \<open>scan_page\<close> was selected
  three times in a row.
\<close>

definition after_three :: "nat agent" where
  "after_three =
     snd (process_tool_calls demo_env [scan_call, scan_call, scan_call]
            (start_task (ascii ''Find a phone'') demo_agent))"

text \<open>The agent after one call of \<open>scan_page\<close> in a turn that began with one entry.\<close>

definition after_scan :: "nat agent" where
  "after_scan =
     \<lparr>history = [small_message,
                 assistant_message None [scan_call, plan_call, scan_call],
                 tool_message (ascii ''call_1'') (ascii ''Accessibility tree is empty.'')],
      plan = JArr [], agent_notes = [], main_goal = ascii ''Find a phone'',
      has_planned = False, last_action = Some (ascii ''scan_page'', ascii ''{}''),
      repeated_action_count = 0, world = 1\<rparr>"

section \<open>History pruning and tool results\<close>

lemma prune_loop_acc:
  "prune_loop tk L t kept ms = kept @ prune_loop tk L t [] ms"
proof (induction ms arbitrary: t kept)
  case Nil
  show ?case by simp
next
  case (Cons m ms)
  show ?case
    using Cons.IH [of "t + msg_tokens tk m" "kept @ [m]"] Cons.IH [of "t + msg_tokens tk m" "[m]"]
    by simp
qed

lemma prune_loop_fits:
  "t + sum_list (map (msg_tokens tk) ms) \<le> L \<Longrightarrow> prune_loop tk L t [] ms = ms"
proof (induction ms arbitrary: t)
  case Nil
  show ?case by simp
next
  case (Cons m ms)
  have "prune_loop tk L (t + msg_tokens tk m) [] ms = ms"
    using Cons.prems by (intro Cons.IH) simp
  then show ?case
    using Cons.prems prune_loop_acc [of tk L "t + msg_tokens tk m" "[m]" ms] by simp
qed

lemma prune_loop_bound:
  "t \<le> L \<Longrightarrow> t + sum_list (map (msg_tokens tk) (prune_loop tk L t [] ms)) \<le> L"
proof (induction ms arbitrary: t)
  case Nil
  then show ?case by simp
next
  case (Cons m ms)
  show ?case
  proof (cases "t + msg_tokens tk m > L")
    case True
    then show ?thesis using Cons.prems by simp
  next
    case False
    then have "t + msg_tokens tk m
        + sum_list (map (msg_tokens tk) (prune_loop tk L (t + msg_tokens tk m) [] ms)) \<le> L"
      by (intro Cons.IH) simp
    then show ?thesis
      using False prune_loop_acc [of tk L "t + msg_tokens tk m" "[m]" ms] by simp
  qed
qed

lemma pruned_idem: "pruned tk L (pruned tk L h) = pruned tk L h"
proof -
  let ?r = "prune_loop tk L 0 [] (rev h)"
  have "0 + sum_list (map (msg_tokens tk) ?r) \<le> L"
    by (rule prune_loop_bound) simp
  then have "prune_loop tk L 0 [] ?r = ?r"
    by (rule prune_loop_fits)
  then show ?thesis by (simp add: pruned_def)
qed

lemma pruned_last_kept:
  assumes "h \<noteq> []" "msg_tokens tk (last h) \<le> L"
  shows "pruned tk L h \<noteq> [] \<and> last (pruned tk L h) = last h"
proof -
  obtain xs x where h: "h = xs @ [x]" using assms(1) by (cases h rule: rev_cases) auto
  have "prune_loop tk L 0 [] (rev h) = x # prune_loop tk L (msg_tokens tk x) [] (rev xs)"
    using assms(2) h prune_loop_acc [of tk L "msg_tokens tk x" "[x]" "rev xs"] by simp
  then show ?thesis using h by (simp add: pruned_def)
qed

lemma pruned_last_dropped:
  assumes "h \<noteq> []" "msg_tokens tk (last h) > L"
  shows "pruned tk L h = []"
proof -
  obtain xs x where h: "h = xs @ [x]" using assms(1) by (cases h rule: rev_cases) auto
  then show ?thesis using assms(2) by (simp add: pruned_def)
qed

lemma big_message_tokens: "msg_tokens char_tokenizer big_message = 100001"
  by (simp add: msg_tokens_def msg_text_def char_tokenizer_def big_message_def
      assistant_message_def)

lemma small_message_tokens: "msg_tokens char_tokenizer small_message = 47"
  by (simp add: msg_tokens_def msg_text_def char_tokenizer_def small_message_def
      user_message_def ascii_def)

text \<open>
  Claim C2, as the specification has it: pruning never drops the most recent entry,
  even when its token cost alone exceeds the limit. It fails: with a most recent entry
  of 100001 tokens the first pass of the loop breaks, and the pruned history is empty.
\<close>

theorem prune_drops_oversized_last:
  "last (history (demo_agent\<lparr>history := [small_message, big_message]\<rparr>)) = big_message
   \<and> msg_tokens char_tokenizer big_message > TOKEN_LIMIT
   \<and> history (prune_history char_tokenizer
        (demo_agent\<lparr>history := [small_message, big_message]\<rparr>)) = []"
  using pruned_last_dropped [of "[small_message, big_message]" TOKEN_LIMIT char_tokenizer]
  by (simp add: prune_history_def big_message_tokens TOKEN_LIMIT_def)

text \<open>
  Claim C2, amended: pruning a non-empty history keeps its most recent entry, as the
  last entry of the result, when the token cost of that entry is at most the limit;
  when that cost alone exceeds the limit, the pruned history is empty.
\<close>

theorem prune_keeps_last_within_limit:
  "history s \<noteq> [] \<Longrightarrow>
   (msg_tokens tk (last (history s)) \<le> TOKEN_LIMIT \<longrightarrow>
      history (prune_history tk s) \<noteq> []
      \<and> last (history (prune_history tk s)) = last (history s))
   \<and> (msg_tokens tk (last (history s)) > TOKEN_LIMIT \<longrightarrow> history (prune_history tk s) = [])"
  using pruned_last_kept [of "history s" tk TOKEN_LIMIT]
    pruned_last_dropped [of "history s" TOKEN_LIMIT tk]
  by (simp add: prune_history_def)

theorem prune_keeps_last_within_limit_witness:
  "history (demo_agent\<lparr>history := [big_message, small_message]\<rparr>) \<noteq> []
   \<and> msg_tokens char_tokenizer small_message \<le> TOKEN_LIMIT
   \<and> last (history (prune_history char_tokenizer
        (demo_agent\<lparr>history := [big_message, small_message]\<rparr>))) = small_message
   \<and> history (demo_agent\<lparr>history := [big_message]\<rparr>) \<noteq> []
   \<and> msg_tokens char_tokenizer big_message > TOKEN_LIMIT
   \<and> history (prune_history char_tokenizer (demo_agent\<lparr>history := [big_message]\<rparr>)) = []"
  using prune_keeps_last_within_limit
      [of "demo_agent\<lparr>history := [big_message, small_message]\<rparr>" char_tokenizer]
    prune_keeps_last_within_limit [of "demo_agent\<lparr>history := [big_message]\<rparr>" char_tokenizer]
  by (simp add: big_message_tokens small_message_tokens TOKEN_LIMIT_def)

text \<open>
  Claim C8: pruning is idempotent for the fixed token limit. Pruning a history that
  \<open>_prune_history\<close> has pruned already, with the same tokenizer, returns it unchanged.
\<close>

theorem prune_history_idempotent:
  "prune_history tk (prune_history tk s) = prune_history tk s"
  by (simp add: prune_history_def pruned_idem)

lemma marker_has_truncated: "contains (ascii ''[TRUNCATED'') TRUNCATION_MARKER"
  by (simp add: TRUNCATION_MARKER_def ascii_def)

lemma marker_has_hint: "contains (ascii ''Call scan_page again'') TRUNCATION_MARKER"
  by (simp add: TRUNCATION_MARKER_def ascii_def)

lemma add_tool_result_printed:
  "console_print env (result_line result) = None \<Longrightarrow>
   add_tool_result env tool_id result s
     = Inr (s\<lparr>history := history s @ [tool_message tool_id (stored_result result)]\<rparr>)"
  by (simp add: add_tool_result_def)

lemma stored_result_cases:
  "(length result \<le> 20000 \<longrightarrow> stored_result result = result)
   \<and> (length result > 20000 \<longrightarrow>
        stored_result result = take 2000 result @ TRUNCATION_MARKER
        \<and> length (stored_result result) = 2000 + length TRUNCATION_MARKER)"
  by (simp add: stored_result_def)

text \<open>
  Claim C7 says that every tool result is appended to the history, cut to its first
  2000 characters and the marker exactly when it has more than 20000 characters, and
  unchanged otherwise. The cut is as the claim says (\<open>stored_result_cases\<close>), and the
  entry is appended whenever the line of the result prints
  (\<open>add_tool_result_printed\<close>). But \<open>_add_tool_result\<close> prints a result of fewer than
  200 characters as console markup before it appends it: for the result \<open>[/b]\<close>, whose
  closing tag closes nothing, the print raises and nothing is appended.
\<close>

theorem add_tool_result_raises_on_markup:
  "length (ascii ''[/b]'') \<le> 20000
   \<and> result_line (ascii ''[/b]'')
       = Text (ascii ''   '' @ [0x2139, 0xFE0F] @ ascii '' Result: [dim][/b][/dim]'')
   \<and> add_tool_result demo_env (ascii ''call_1'') (ascii ''[/b]'') demo_agent
       = Inl (MarkupError (ascii ''   '' @ [0x2139, 0xFE0F] @ ascii '' Result: [dim][/b][/dim]''))"
  by (simp add: add_tool_result_def result_line_def demo_env_def ascii_def)

section \<open>Synthesized names\<close>

lemma join_Cons: "join sp (x # xs) = x @ (if xs = [] then [] else sp @ join sp xs)"
  by (cases xs) simp_all

lemma join_append:
  "xs \<noteq> [] \<Longrightarrow> ys \<noteq> [] \<Longrightarrow> join sp (xs @ ys) = join sp xs @ sp @ join sp ys"
proof (induction xs)
  case Nil
  then show ?case by simp
next
  case (Cons x xs)
  then show ?case by (cases "xs = []") (simp_all add: join_Cons)
qed

lemma rev_dropWhile_rev_prefix: "\<exists>zs. ys = rev (dropWhile P (rev ys)) @ zs"
proof -
  have "rev ys = takeWhile P (rev ys) @ dropWhile P (rev ys)" by simp
  then have "ys = rev (dropWhile P (rev ys)) @ rev (takeWhile P (rev ys))"
    by (metis rev_append rev_rev_ident)
  then show ?thesis by blast
qed

lemma strip_trimmed: "strip t \<noteq> [] \<Longrightarrow> trimmed (strip t)"
proof -
  assume ne: "strip t \<noteq> []"
  let ?ys = "dropWhile is_space t"
  let ?r = "dropWhile is_space (rev ?ys)"
  have s: "strip t = rev ?r" by (simp add: strip_def)
  from ne s have r: "?r \<noteq> []" by simp
  then have "\<not> is_space (hd ?r)" by (rule hd_dropWhile)
  then have l: "\<not> is_space (last (strip t))" using r s by (simp add: last_rev)
  obtain zs where z: "?ys = rev ?r @ zs" using rev_dropWhile_rev_prefix by blast
  have "?ys \<noteq> []"
  proof
    assume "?ys = []"
    then have "?r = []" by (simp only: rev.simps dropWhile.simps)
    with r show False by blast
  qed
  then have "\<not> is_space (hd ?ys)" by (rule hd_dropWhile)
  moreover have "hd ?ys = hd (rev ?r)" using r z by (metis hd_append2 rev_is_Nil_conv)
  ultimately have "\<not> is_space (hd (strip t))" using s by simp
  with l ne show ?thesis by (simp add: trimmed_def)
qed

lemma strip_of_trimmed: "trimmed t \<Longrightarrow> strip t = t"
proof -
  assume t: "trimmed t"
  then have 1: "dropWhile is_space t = t" by (cases t) (auto simp: trimmed_def)
  from t have "rev t \<noteq> []" "\<not> is_space (hd (rev t))" by (auto simp: trimmed_def hd_rev)
  then have "dropWhile is_space (rev t) = rev t" by (cases "rev t") auto
  with 1 show ?thesis by (simp add: strip_def)
qed

lemma strip_Nil: "strip [] = []"
  by (simp add: strip_def)

lemma join_trimmed:
  "ts \<noteq> [] \<Longrightarrow> \<forall>t \<in> set ts. trimmed t \<Longrightarrow> trimmed (join sp ts)"
proof (induction ts)
  case Nil
  then show ?case by simp
next
  case (Cons t ts)
  show ?case
  proof (cases "ts = []")
    case True
    then show ?thesis using Cons.prems by simp
  next
    case False
    then have "trimmed (join sp ts)" using Cons by simp
    then show ?thesis using Cons.prems False
      by (auto simp: join_Cons trimmed_def)
  qed
qed

lemma nearest_names_trimmed: "\<forall>t \<in> set (nearest_names cs). trimmed t"
  by (induction cs rule: nearest_names.induct) (auto simp: stripped_name_def strip_trimmed)

lemma strip_join_nearest:
  "strip (join sp (nearest_names cs)) = join sp (nearest_names cs)"
proof (cases "nearest_names cs = []")
  case True
  then show ?thesis by (simp add: strip_Nil)
next
  case False
  then show ?thesis
    by (intro strip_of_trimmed join_trimmed nearest_names_trimmed)
qed

lemma join_nearest_Nil:
  "join sp (nearest_names cs) = [] \<longleftrightarrow> nearest_names cs = []"
proof
  assume "join sp (nearest_names cs) = []"
  show "nearest_names cs = []"
  proof (rule ccontr)
    assume "nearest_names cs \<noteq> []"
    then have "trimmed (join sp (nearest_names cs))"
      by (intro join_trimmed nearest_names_trimmed)
    with \<open>join sp (nearest_names cs) = []\<close> show False by (simp add: trimmed_def)
  qed
qed simp

lemma collect_nearest:
  "join (ascii '' '') (filter (\<lambda>t. t \<noteq> []) (collect_parts cs))
     = join (ascii '' '') (nearest_names cs)
   \<and> (filter (\<lambda>t. t \<noteq> []) (collect_parts cs) = [] \<longleftrightarrow> nearest_names cs = [])"
  "collect_text cs = join (ascii '' '') (nearest_names cs)"
proof (induction cs and cs rule: collect_parts_collect_text.induct)
  case 1
  show ?case by simp
next
  case (2 r nm ch v c l d rest)
  let ?n = "Node r nm ch v c l d"
  let ?name = "strip (case nm of None \<Rightarrow> [] | Some t \<Rightarrow> t)"
  have sn: "stripped_name ?n = ?name" by (simp add: stripped_name_def)
  show ?case
  proof (cases "?name = []")
    case False
    then show ?thesis using "2.IH"(2) sn by (simp add: join_Cons Let_def)
  next
    case True
    then have ct: "collect_text ch = join (ascii '' '') (nearest_names ch)"
      using "2.IH"(1) by simp
    show ?thesis
    proof (cases "nearest_names ch = []")
      case e: True
      then have "collect_text ch = []" using ct by simp
      then show ?thesis using True e "2.IH"(2) sn by (simp add: Let_def del: collect_text.simps)
    next
      case ne: False
      then have "collect_text ch \<noteq> []" using ct join_nearest_Nil by metis
      then show ?thesis using True ne "2.IH"(2) sn ct
        by (auto simp add: Let_def join_Cons join_append simp del: collect_text.simps)
    qed
  qed
next
  case (3 children)
  then show ?case by (simp add: strip_join_nearest)
qed

lemma hello_button_interactive: "is_interactive hello_button"
  by (simp add: hello_button_def leaf_def is_interactive_def role_of_def INTERACTIVE_ROLES_def ascii_def)

lemma hello_button_unnamed: "stripped_name hello_button = []"
  by (simp add: hello_button_def leaf_def stripped_name_def strip_def ascii_def)

lemma hello_button_synth: "synth_name hello_button = ascii ''Hello''"
  by (simp add: hello_button_def leaf_def synth_name_def stripped_name_def strip_def ascii_def
     role_of_def INTERACTIVE_ROLES_def is_space_def)

lemma hello_button_descendants: "join (ascii '' '') (descendant_names (n_children hello_button)) = ascii ''Hello World''"
  by (simp add: hello_button_def leaf_def stripped_name_def strip_def ascii_def is_space_def)

text \<open>
  Claim C3, as the specification has it: the synthesized name of an interactive node
  without a name of its own is the space-joined, depth-first concatenation of the
  non-empty names of all its descendants. It fails: \<open>_collect_text\<close> does not go below
  a child that has a name, so the button over \<open>Hello\<close> over \<open>World\<close> is named
  \<open>Hello\<close>, not \<open>Hello World\<close>.
\<close>

theorem synth_name_skips_below_named:
  "is_interactive hello_button \<and> stripped_name hello_button = []
   \<and> descendant_names (n_children hello_button) = [ascii ''Hello'', ascii ''World'']
   \<and> join (ascii '' '') (descendant_names (n_children hello_button)) = ascii ''Hello World''
   \<and> synth_name hello_button = ascii ''Hello''
   \<and> synth_name hello_button
       \<noteq> join (ascii '' '') (descendant_names (n_children hello_button))"
proof -
  have "descendant_names (n_children hello_button) = [ascii ''Hello'', ascii ''World'']"
    by (simp add: hello_button_def leaf_def stripped_name_def strip_def ascii_def is_space_def)
  moreover have "ascii ''Hello'' \<noteq> ascii ''Hello World''"
    by (simp add: ascii_def)
  ultimately show ?thesis
    using hello_button_interactive hello_button_unnamed hello_button_synth
      hello_button_descendants by simp
qed

text \<open>
  Claim C3, amended: for every interactive node whose own name is empty, the
  synthesized name is the space-joined, depth-first concatenation of the names of its
  nearest named descendants: the descendants that have a non-empty name and no node
  with a non-empty name between them and the node. What lies below a named descendant
  does not contribute.
\<close>

theorem synth_name_nearest_names:
  "is_interactive n \<Longrightarrow> stripped_name n = [] \<Longrightarrow>
   synth_name n = join (ascii '' '') (nearest_names (n_children n))"
  by (cases "n_children n = []")
    (simp_all add: synth_name_def is_interactive_def collect_nearest(2)
      del: collect_text.simps)

theorem synth_name_nearest_names_witness:
  "is_interactive hello_button \<and> stripped_name hello_button = []
   \<and> nearest_names (n_children hello_button) = [ascii ''Hello'']
   \<and> synth_name hello_button = ascii ''Hello''"
proof -
  have "nearest_names (n_children hello_button) = [ascii ''Hello'']"
    by (simp add: hello_button_def leaf_def stripped_name_def strip_def ascii_def is_space_def)
  then show ?thesis
    using synth_name_nearest_names [OF hello_button_interactive hello_button_unnamed]
      hello_button_interactive hello_button_unnamed by simp
qed

section \<open>Scanning and element lookup\<close>

lemma update_fresh: "k \<notin> fst ` set al \<Longrightarrow> AList.update k v al = al @ [(k, v)]"
  by (induction al) auto

lemma ids_dense_fresh: "ids_dense em \<Longrightarrow> int (length em) + 1 \<notin> fst ` set em"
proof -
  assume "ids_dense em"
  then have "fst ` set em = set (map int [1..<Suc (length em)])"
    by (metis ids_dense_def set_map)
  then show ?thesis by auto
qed

lemma entries_append:
  "entries fs k (xs @ ys) = entries fs k xs @ entries fs (k + length xs) ys"
  by (induction xs arbitrary: k) simp_all

lemma length_entries: "length (entries fs k ns) = length ns"
  by (induction ns arbitrary: k) simp_all

lemma fst_entries: "map fst (entries fs k ns) = map int [Suc k..<Suc (k + length ns)]"
proof (induction ns arbitrary: k)
  case Nil
  show ?case by simp
next
  case (Cons n ns)
  have "[Suc k..<Suc (k + length (n # ns))] = Suc k # [Suc (Suc k)..<Suc (Suc k + length ns)]"
    by (subst upt_rec) simp
  then show ?case using Cons.IH [of "Suc k"] by simp
qed

lemma el_id_entries: "map (el_id \<circ> snd) (entries fs k ns) = map fst (entries fs k ns)"
  by (induction ns arbitrary: k) simp_all

lemma ids_dense_entries: "ids_dense (entries fs 0 ns)"
  by (simp add: ids_dense_def fst_entries length_entries)

lemma ids_dense_extend:
  assumes "ids_dense em"
  shows "ids_dense (em @ entries fs (length em) ns)"
proof -
  have "[1..<Suc (length em + length ns)]
      = [1..<Suc (length em)] @ [Suc (length em)..<Suc (length em + length ns)]"
    by (metis Suc_eq_plus1 add_Suc le_add1 less_eq_Suc_le upt_add_eq_append zero_less_Suc plus_1_eq_Suc)
  then show ?thesis using assms by (simp add: ids_dense_def fst_entries length_entries)
qed

lemma visit_elements:
  assumes "ids_dense (elements_map st)"
  shows "elements_map (visit fs n st)
    = elements_map st @ (if is_interactive n then entries fs (length (elements_map st)) [n] else [])"
  using ids_dense_fresh [OF assms]
  by (simp add: visit_def Let_def update_fresh split: option.splits)

lemma take_budget:
  "take (B - k) (xs @ ys)
     = take (B - k) xs @ take (B - (k + length (take (B - k) xs))) ys"
  by (cases "length xs \<le> B - k") (simp_all add: min_def)

lemma traverse_elements:
  "ids_dense (elements_map st) \<Longrightarrow>
     elements_map (traverse fs n st)
       = elements_map st @ entries fs (length (elements_map st))
           (take (800 - length (elements_map st)) (filter is_interactive (preorder n)))"
  "ids_dense (elements_map st) \<Longrightarrow>
     elements_map (traverse_children fs ns st)
       = elements_map st @ entries fs (length (elements_map st))
           (take (800 - length (elements_map st)) (filter is_interactive (preorder_list ns)))"
proof (induction fs n st and fs ns st rule: traverse_traverse_children.induct)
  case (1 fs r nm ch v c l d st)
  let ?n = "Node r nm ch v c l d"
  let ?k = "length (elements_map st)"
  show ?case
  proof (cases "?k \<ge> 800")
    case True
    then show ?thesis by simp
  next
    case small: False
    show ?thesis
    proof (cases "is_interactive ?n \<or> is_heading ?n \<or> is_content ?n")
      case False
      then show ?thesis using small "1.IH"(1) "1.prems" by simp
    next
      case True
      let ?st = "visit fs ?n st"
      have ve: "elements_map ?st
          = elements_map st @ (if is_interactive ?n then entries fs ?k [?n] else [])"
        using "1.prems" by (rule visit_elements)
      have dense: "ids_dense (elements_map ?st)"
        using ids_dense_extend [OF "1.prems", of fs "if is_interactive ?n then [?n] else []"] ve
        by (simp split: if_splits)
      have ih: "elements_map (traverse_children fs ch ?st)
          = elements_map ?st @ entries fs (length (elements_map ?st))
              (take (800 - length (elements_map ?st)) (filter is_interactive (preorder_list ch)))"
        using "1.IH"(2) small True dense by simp
      have tr: "traverse fs ?n st = traverse_children fs ch ?st"
        using small True by simp
      show ?thesis
      proof (cases "is_interactive ?n")
        case False
        then show ?thesis using tr ih ve by simp
      next
        case i: True
        have "800 - ?k = Suc (800 - Suc ?k)" using small by simp
        then have "take (800 - ?k) (?n # filter is_interactive (preorder_list ch))
            = ?n # take (800 - Suc ?k) (filter is_interactive (preorder_list ch))"
          by (simp only: take_Suc_Cons)
        then show ?thesis using tr ih ve i by simp
      qed
    qed
  qed
next
  case (2 fs st)
  show ?case by simp
next
  case (3 fs child rest st)
  let ?k = "length (elements_map st)"
  let ?A = "take (800 - ?k) (filter is_interactive (preorder child))"
  let ?st = "traverse fs child st"
  have e1: "elements_map ?st = elements_map st @ entries fs ?k ?A"
    using "3.IH"(1) "3.prems" by simp
  have dense: "ids_dense (elements_map ?st)"
    using ids_dense_extend [OF "3.prems"] e1 by simp
  have len: "length (elements_map ?st) = ?k + length ?A"
    using e1 by (simp add: length_entries)
  have e2: "elements_map (traverse_children fs rest ?st)
      = elements_map ?st @ entries fs (?k + length ?A)
          (take (800 - (?k + length ?A)) (filter is_interactive (preorder_list rest)))"
    using "3.IH"(2) dense len by simp
  have "take (800 - ?k) (filter is_interactive (preorder_list (child # rest)))
      = ?A @ take (800 - (?k + length ?A)) (filter is_interactive (preorder_list rest))"
    using take_budget [of 800 ?k "filter is_interactive (preorder child)"] by simp
  then show ?case using e1 e2 by (simp add: entries_append)
qed

lemma scan_elements:
  "snd (scan fs (Inr (Some t)) old) = entries fs 0 (registered t)"
proof -
  have "ids_dense (elements_map \<lparr>elements_map = [], report = []\<rparr>)"
    by (simp add: ids_dense_def)
  from traverse_elements(1) [OF this, of fs t]
  show ?thesis by (simp add: scan_def Let_def registered_def)
qed

lemma scan_cases:
  "snd (scan fs snap old) = (case snap of Inr (Some t) \<Rightarrow> entries fs 0 (registered t) | _ \<Rightarrow> [])"
  using scan_elements [of fs _ old]
  by (auto simp: scan_def Let_def split: sum.splits option.splits)

lemma length_registered: "length (registered t) \<le> 800"
  by (simp add: registered_def)






lemma startswith_append: "startswith (sub @ zs) sub"
  by (induction sub) simp_all

lemma contains_prefix: "contains sub (sub @ zs)"
  using startswith_append [of sub zs] by (cases "sub @ zs") auto

lemma contains_append_right: "contains sub ys \<Longrightarrow> contains sub (xs @ ys)"
proof (induction xs)
  case Nil
  then show ?case by simp
next
  case (Cons x xs)
  then show ?case by simp
qed

lemma contains_middle: "contains sub (xs @ sub @ ys)"
  by (rule contains_append_right) (rule contains_prefix)

lemma not_found_text:
  "contains (ascii ''not found'') (not_found i)"
  "contains (ascii ''scan_page'') (not_found i)"
proof -
  have 1: "contains (ascii ''not found'')
      (ascii '' not found. Suggestion: Call 'scan_page' to refresh IDs.'')"
    by (simp add: ascii_def)
  have 2: "contains (ascii ''scan_page'')
      (ascii '' not found. Suggestion: Call 'scan_page' to refresh IDs.'')"
    by (simp add: ascii_def)
  show "contains (ascii ''not found'') (not_found i)"
    unfolding not_found_def using 1 by (intro contains_append_right)
  show "contains (ascii ''scan_page'') (not_found i)"
    unfolding not_found_def using 2 by (intro contains_append_right)
qed

lemma scan_page_parser:
  "page b = Some p \<Longrightarrow>
   parser (snd (scan_page api b))
     = snd (scan (float_str api) (fst (snapshot api (dismiss_overlays api p))) (parser b))"
  by (simp add: scan_page_def split: prod.splits)

lemma scan_dense: "ids_dense (snd (scan fs snap old))"
proof -
  have "ids_dense []" by (simp add: ids_dense_def)
  then show ?thesis
    using ids_dense_entries by (simp add: scan_cases split: sum.splits option.splits)
qed

lemma int_image_upt: "(i \<in> int ` {1..<Suc n}) = (1 \<le> i \<and> i \<le> int n)"
proof
  assume "i \<in> int ` {1..<Suc n}"
  then show "1 \<le> i \<and> i \<le> int n" by auto
next
  assume a: "1 \<le> i \<and> i \<le> int n"
  then have "nat i \<in> {1..<Suc n}" by auto
  moreover have "i = int (nat i)" using a by simp
  ultimately show "i \<in> int ` {1..<Suc n}" by (rule rev_image_eqI)
qed

lemma dense_keys:
  assumes "ids_dense em"
  shows "(i \<notin> fst ` set em) = (i < 1 \<or> int (length em) < i)"
proof -
  have "fst ` set em = set (map fst em)" by simp
  also have "\<dots> = int ` {1..<Suc (length em)}"
    using assms by (simp only: ids_dense_def set_map set_upt)
  finally show ?thesis using int_image_upt [of i "length em"] by auto
qed

lemma scan_is_entries:
  "\<exists>ns. length ns \<le> 800 \<and> snd (scan fs snap old) = entries fs 0 ns"
proof (cases snap)
  case (Inl e)
  then have "snd (scan fs snap old) = entries fs 0 []" by (simp add: scan_cases)
  then show ?thesis by (intro exI [of _ "[]"]) simp
next
  case (Inr x)
  show ?thesis
  proof (cases x)
    case None
    then have "snd (scan fs snap old) = entries fs 0 []" using Inr by (simp add: scan_cases)
    then show ?thesis by (intro exI [of _ "[]"]) simp
  next
    case (Some t)
    then have "snd (scan fs snap old) = entries fs 0 (registered t)"
      using Inr by (simp add: scan_cases)
    then show ?thesis using length_registered [of t] by blast
  qed
qed

text \<open>
  Claim C5: for every raw accessibility tree one scan registers at most 800 interactive
  elements, and the ids are exactly 1 to k in the order of the traversal, without gaps
  or repeats, where k is the number of registered elements. Whatever the snapshot gave,
  the map after \<open>scan\<close> has at most 800 entries, its keys in insertion order are
  1, 2, ..., k, and each entry carries its key as its id; for a tree, the entries are
  those of the first 800 interactive nodes in depth-first order.
\<close>

theorem scan_ids_dense_capped:
  "length (snd (scan fs snap old)) \<le> 800
   \<and> map fst (snd (scan fs snap old)) = map int [1..<Suc (length (snd (scan fs snap old)))]
   \<and> distinct (map fst (snd (scan fs snap old)))
   \<and> map (el_id \<circ> snd) (snd (scan fs snap old)) = map fst (snd (scan fs snap old))
   \<and> snd (scan fs (Inr (Some t)) old) = entries fs 0 (registered t)
   \<and> length (snd (scan fs (Inr (Some t)) old))
       = min 800 (length (filter is_interactive (preorder t)))"
proof -
  let ?em = "snd (scan fs snap old)"
  obtain ns where ns: "length ns \<le> 800" "?em = entries fs 0 ns"
    using scan_is_entries by blast
  have len: "length ?em \<le> 800"
    using ns by (simp add: length_entries)
  have ids: "map fst ?em = map int [1..<Suc (length ?em)]"
    using scan_dense [of fs snap old] by (simp only: ids_dense_def)
  have "distinct (map int [1..<Suc (length ?em)])"
    by (simp add: distinct_map)
  then have dist: "distinct (map fst ?em)" using ids by simp
  have own: "map (el_id \<circ> snd) ?em = map fst ?em"
    using ns(2) el_id_entries [of fs 0 ns] by simp
  have "length (snd (scan fs (Inr (Some t)) old))
      = min 800 (length (filter is_interactive (preorder t)))"
    by (simp add: scan_elements length_entries registered_def min.commute)
  then show ?thesis using len ids dist own scan_elements [of fs t old] by simp
qed













lemma scan_page_demo:
  "parser (snd (scan_page demo_api old_browser)) = entries no_float 0 [hello_button]"
proof -
  have "registered hello_button = [hello_button]"
    by (simp add: registered_def hello_button_def leaf_def is_interactive_def role_of_def
        INTERACTIVE_ROLES_def ascii_def)
  then show ?thesis
    using scan_page_parser [of old_browser "()" demo_api]
    by (simp add: old_browser_def demo_api_def scan_cases)
qed

text \<open>
  Claim C4: for every element id that the most recent scan did not assign, also an id
  left over from an earlier scan, \<open>click_element\<close> returns the not-found string, which
  suggests \<open>scan_page\<close>; it does not raise and touches no element. Such an id is
  below 1 or above the number of elements that the scan registered.
\<close>

theorem click_unassigned_id_not_found:
  "page b = Some p \<Longrightarrow> element_id \<notin> fst ` set (parser (snd (scan_page api b))) \<Longrightarrow>
   click_element api element_id (snd (scan_page api b))
     = (Inr (not_found element_id), snd (scan_page api b))
   \<and> contains (ascii ''not found'') (not_found element_id)
   \<and> contains (ascii ''scan_page'') (not_found element_id)
   \<and> (element_id < 1 \<or> int (length (parser (snd (scan_page api b)))) < element_id)"
proof -
  assume p: "page b = Some p"
  assume n: "element_id \<notin> fst ` set (parser (snd (scan_page api b)))"
  then have "map_of (parser (snd (scan_page api b))) element_id = None"
    by (simp add: map_of_eq_None_iff)
  then have c: "click_element api element_id (snd (scan_page api b))
      = (Inr (not_found element_id), snd (scan_page api b))"
    by (simp add: click_element_def)
  have "ids_dense (parser (snd (scan_page api b)))"
    using scan_page_parser [OF p, of api] scan_dense by simp
  from dense_keys [OF this, of element_id] n
  have "element_id < 1 \<or> int (length (parser (snd (scan_page api b)))) < element_id"
    by simp
  with c show ?thesis by (simp add: not_found_text)
qed

theorem click_unassigned_id_not_found_witness:
  "page old_browser = Some ()
   \<and> map_of (parser old_browser) 2 \<noteq> None
   \<and> 2 \<notin> fst ` set (parser (snd (scan_page demo_api old_browser)))
   \<and> click_element demo_api 2 (snd (scan_page demo_api old_browser))
       = (Inr (not_found 2), snd (scan_page demo_api old_browser))"
proof -
  have p: "page old_browser = Some ()" by (simp add: old_browser_def)
  have o: "map_of (parser old_browser) 2 \<noteq> None" by (simp add: old_browser_def)
  have n: "2 \<notin> fst ` set (parser (snd (scan_page demo_api old_browser)))"
    by (simp add: scan_page_demo)
  show ?thesis
    using click_unassigned_id_not_found [OF p n] p o n by simp
qed

section \<open>The loop guard and the dispatch of tool calls\<close>

lemma call_tool_frame:
  "call_tool env f args s = (r, s2) \<Longrightarrow>
   last_action s2 = last_action s \<and> repeated_action_count s2 = repeated_action_count s
   \<and> history s2 = history s"
  by (auto simp: call_tool_def tool_mark_done_def tool_finish_def tool_ask_user_def Let_def
      split: if_splits sum.splits prod.splits json.splits list.splits option.splits)

lemma override_no_hint: "with_hint f OVERRIDE = OVERRIDE"
  by (simp add: with_hint_def OVERRIDE_def ascii_def lower_def lower_char_def)

lemma override_stored: "stored_result OVERRIDE = OVERRIDE"
  by (simp add: stored_result_def OVERRIDE_def ascii_def)

lemma append_result_frame:
  "last_action (snd (append_result env i r s)) = last_action s
   \<and> repeated_action_count (snd (append_result env i r s)) = repeated_action_count s
   \<and> world (snd (append_result env i r s)) = world s"
  by (simp add: append_result_def add_tool_result_def split: option.splits)

lemma process_guarded:
  assumes "json_loads env (arguments tc) = Some args"
    "fname tc \<noteq> ascii ''set_plan''" "fname tc \<noteq> ascii ''finish_task''"
    "console_print env (call_line tc) = None"
  shows "process_tool_call env tc s =
    (case guarded_call env (fname tc) args s of
       (Inl e, s2) \<Rightarrow>
         (case console_print env (error_line (error_result env (fname tc) e)) of
            Some e2 \<Rightarrow> (Raise e2, s2)
          | None \<Rightarrow> append_result env (call_id tc) (error_result env (fname tc) e) s2)
     | (Inr result, s2) \<Rightarrow> append_result env (call_id tc) result s2)"
  using assms
  by (simp add: process_tool_call_def try_tool_call_def split: prod.splits sum.splits)

lemma guarded_override:
  assumes "last_action s = Some (f, py_str env args)" "2 \<le> repeated_action_count s"
  shows "guarded_call env f args s
    = (Inr OVERRIDE, s\<lparr>repeated_action_count := repeated_action_count s + 1,
                        last_action := Some (f, py_str env args)\<rparr>)"
  using assms by (simp add: guarded_call_def Let_def override_no_hint)

lemma guarded_dispatch:
  assumes "\<not> (last_action s = Some (f, py_str env args) \<and> 2 \<le> repeated_action_count s)"
  shows "guarded_call env f args s
    = (case call_tool env f args
         (s\<lparr>repeated_action_count :=
              (if last_action s = Some (f, py_str env args) then repeated_action_count s + 1
               else 0)\<rparr>) of
         (Inl e, s2) \<Rightarrow> (Inl e, s2)
       | (Inr result, s2) \<Rightarrow>
           (Inr (with_hint f result), s2\<lparr>last_action := Some (f, py_str env args)\<rparr>))"
  using assms by (auto simp add: guarded_call_def Let_def)

lemma guarded_count:
  "repeated_action_count (snd (guarded_call env f args s))
     = (if last_action s = Some (f, py_str env args) then repeated_action_count s + 1 else 0)"
proof (cases "last_action s = Some (f, py_str env args) \<and> 2 \<le> repeated_action_count s")
  case True
  then show ?thesis using guarded_override [of s f env args] by simp
next
  case False
  obtain r s2 where c: "call_tool env f args
         (s\<lparr>repeated_action_count :=
              (if last_action s = Some (f, py_str env args) then repeated_action_count s + 1
               else 0)\<rparr>) = (r, s2)"
    by (cases "call_tool env f args
         (s\<lparr>repeated_action_count :=
              (if last_action s = Some (f, py_str env args) then repeated_action_count s + 1
               else 0)\<rparr>)")
  from call_tool_frame [OF c] show ?thesis
    using guarded_dispatch [OF False] c by (cases r) simp_all
qed

lemma guarded_last_kept:
  "last_action s = Some (f, py_str env args) \<Longrightarrow>
   last_action (snd (guarded_call env f args s)) = Some (f, py_str env args)"
proof (cases "2 \<le> repeated_action_count s")
  case True
  assume "last_action s = Some (f, py_str env args)"
  then show ?thesis using True guarded_override [of s f env args] by simp
next
  case False
  assume l: "last_action s = Some (f, py_str env args)"
  obtain r s2 where c: "call_tool env f args
         (s\<lparr>repeated_action_count :=
              (if last_action s = Some (f, py_str env args) then repeated_action_count s + 1
               else 0)\<rparr>) = (r, s2)"
    by (cases "call_tool env f args
         (s\<lparr>repeated_action_count :=
              (if last_action s = Some (f, py_str env args) then repeated_action_count s + 1
               else 0)\<rparr>)")
  from call_tool_frame [OF c] show ?thesis
    using guarded_dispatch [of s f env args] False c l by (cases r) simp_all
qed

lemma process_state:
  assumes "json_loads env (arguments tc) = Some args"
    "fname tc \<noteq> ascii ''set_plan''" "fname tc \<noteq> ascii ''finish_task''"
    "console_print env (call_line tc) = None"
  shows "repeated_action_count (snd (process_tool_call env tc s))
      = repeated_action_count (snd (guarded_call env (fname tc) args s))"
    "last_action (snd (process_tool_call env tc s))
      = last_action (snd (guarded_call env (fname tc) args s))"
  using process_guarded [OF assms, of s] append_result_frame
  by (auto split: prod.splits sum.splits option.splits)

lemma process_untouched:
  assumes "json_loads env (arguments tc) = None \<or> fname tc = ascii ''set_plan''
    \<or> fname tc = ascii ''finish_task''"
  shows "repeated_action_count (snd (process_tool_call env tc s)) = repeated_action_count s
    \<and> last_action (snd (process_tool_call env tc s)) = last_action s"
proof -
  have t: "repeated_action_count (snd (snd (try_tool_call env tc s))) = repeated_action_count s
      \<and> last_action (snd (snd (try_tool_call env tc s))) = last_action s"
    using assms
    by (auto simp: try_tool_call_def split: option.splits sum.splits)
  obtain r fl s2 where e: "try_tool_call env tc s = (r, fl, s2)"
    by (cases "try_tool_call env tc s") auto
  show ?thesis
    using t e append_result_frame [of env "call_id tc" _ s2]
    by (auto simp: process_tool_call_def split: option.splits sum.splits)
qed

lemma process_override:
  assumes "json_loads env (arguments tc) = Some args"
    "fname tc \<noteq> ascii ''set_plan''" "fname tc \<noteq> ascii ''finish_task''"
    "console_print env (call_line tc) = None"
    "last_action s = Some (fname tc, py_str env args)" "2 \<le> repeated_action_count s"
  shows "process_tool_call env tc s
    = append_result env (call_id tc) OVERRIDE
        (s\<lparr>repeated_action_count := repeated_action_count s + 1,
           last_action := Some (fname tc, py_str env args)\<rparr>)"
  using process_guarded [OF assms(1-4)] assms(5,6) by (simp add: guarded_override)

lemma append_result_printed:
  "console_print env (result_line result) = None \<Longrightarrow>
   append_result env tool_id result s
     = (Next, s\<lparr>history := history s @ [tool_message tool_id (stored_result result)]\<rparr>)"
  by (simp add: append_result_def add_tool_result_def)

lemma append_result_Next:
  "fst (append_result env tool_id result s) = Next \<Longrightarrow>
   snd (append_result env tool_id result s)
     = s\<lparr>history := history s @ [tool_message tool_id (stored_result result)]\<rparr>"
  by (simp add: append_result_def add_tool_result_def split: option.splits)

lemma process_tool_calls_step:
  "fst (process_tool_calls env (tc # tcs) s) = Next \<Longrightarrow>
   fst (process_tool_call env tc s) = Next
   \<and> process_tool_calls env (tc # tcs) s
       = process_tool_calls env tcs (snd (process_tool_call env tc s))"
  by (cases "process_tool_call env tc s") (auto split: flow.splits)

lemma demo_loads: "json_loads demo_env (arguments scan_call) = Some (JObj [])"
  by (simp add: demo_env_def scan_call_def)

lemma demo_names:
  "fname scan_call \<noteq> ascii ''set_plan''" "fname scan_call \<noteq> ascii ''finish_task''"
  by (simp_all add: scan_call_def ascii_def)

lemma demo_call_prints: "console_print demo_env (call_line scan_call) = None"
  by (simp add: demo_env_def call_line_def scan_call_def ascii_def)

lemma demo_result_prints:
  "console_print demo_env (result_line (ascii ''Accessibility tree is empty.'')) = None"
  by (simp add: demo_env_def result_line_def ascii_def)

lemma demo_override_prints: "console_print demo_env (result_line OVERRIDE) = None"
  by (simp add: demo_env_def result_line_def OVERRIDE_def ascii_def)

lemma demo_call:
  "call_tool demo_env (fname scan_call) (JObj []) s
     = (Inr (ascii ''Accessibility tree is empty.''), s\<lparr>world := Suc (world s)\<rparr>)"
  by (simp add: call_tool_def scan_call_def demo_env_def BROWSER_TOOLS_def ascii_def)

lemma demo_no_hint:
  "with_hint f (ascii ''Accessibility tree is empty.'') = ascii ''Accessibility tree is empty.''"
  by (simp add: with_hint_def ascii_def lower_def lower_char_def)

lemma demo_stored:
  "stored_result (ascii ''Accessibility tree is empty.'') = ascii ''Accessibility tree is empty.''"
  by (simp add: stored_result_def ascii_def)

lemma demo_act: "(fname scan_call, py_str demo_env (JObj [])) = (ascii ''scan_page'', ascii ''{}'')"
  by (simp add: scan_call_def py_str_def demo_env_def)

lemma demo_step:
  "\<not> (last_action s = Some (ascii ''scan_page'', ascii ''{}'') \<and> 2 \<le> repeated_action_count s) \<Longrightarrow>
   process_tool_call demo_env scan_call s
     = (Next,
        s\<lparr>repeated_action_count :=
             (if last_action s = Some (ascii ''scan_page'', ascii ''{}'')
              then repeated_action_count s + 1 else 0),
           world := Suc (world s),
           last_action := Some (ascii ''scan_page'', ascii ''{}''),
           history := history s
             @ [tool_message (ascii ''call_1'') (ascii ''Accessibility tree is empty.'')]\<rparr>)"
  using process_guarded [OF demo_loads demo_names demo_call_prints, of s]
    guarded_dispatch [of s "fname scan_call" demo_env "JObj []"]
  by (simp add: demo_act demo_call demo_no_hint append_result_printed demo_result_prints
      demo_stored)
    (simp add: scan_call_def)

lemma demo_step_override:
  "last_action s = Some (ascii ''scan_page'', ascii ''{}'') \<Longrightarrow> 2 \<le> repeated_action_count s \<Longrightarrow>
   process_tool_call demo_env scan_call s
     = (Next,
        s\<lparr>repeated_action_count := repeated_action_count s + 1,
           last_action := Some (ascii ''scan_page'', ascii ''{}''),
           history := history s @ [tool_message (ascii ''call_1'') OVERRIDE]\<rparr>)"
  using process_override [OF demo_loads demo_names demo_call_prints, of s]
  by (simp add: demo_act append_result_printed demo_override_prints override_stored)
    (simp add: scan_call_def)

lemma after_three_eval:
  "after_three =
     \<lparr>history = [tool_message (ascii ''call_1'') (ascii ''Accessibility tree is empty.''),
                 tool_message (ascii ''call_1'') (ascii ''Accessibility tree is empty.''),
                 tool_message (ascii ''call_1'') (ascii ''Accessibility tree is empty.'')],
      plan = JArr [], agent_notes = [], main_goal = ascii ''Find a phone'',
      has_planned = False, last_action = Some (ascii ''scan_page'', ascii ''{}''),
      repeated_action_count = 2, world = 3\<rparr>"
  by (simp add: after_three_def demo_step start_task_def demo_agent_def)

text \<open>
  Claim C1, as the specification has it: the third consecutive selection of the same
  action gets the SYSTEM OVERRIDE result instead of being executed. It fails: after
  three selections of the same \<open>scan_page\<close> call in a fresh task the browser has run
  three operations, the three tool results are what the browser returned, and the
  counter stands at 2.
\<close>

theorem third_selection_is_executed:
  "map msg_content (history after_three)
     = [Some (ascii ''Accessibility tree is empty.''),
        Some (ascii ''Accessibility tree is empty.''),
        Some (ascii ''Accessibility tree is empty.'')]
   \<and> msg_content (last (history after_three)) \<noteq> Some OVERRIDE
   \<and> world after_three = 3
   \<and> repeated_action_count after_three = 2"
  by (simp add: after_three_eval tool_message_def OVERRIDE_def ascii_def)

lemma broken_loads: "json_loads demo_env (arguments broken_call) = None"
  by (simp add: demo_env_def broken_call_def steps_text_def ascii_def)

lemma broken_prints:
  "console_print demo_env (call_line broken_call) = None"
  "console_print demo_env (error_line (error_result demo_env (fname broken_call)
      (JSONDecodeError (arguments broken_call)))) = None"
  "console_print demo_env (result_line (error_result demo_env (fname broken_call)
      (JSONDecodeError (arguments broken_call)))) = None"
  by (simp_all add: demo_env_def call_line_def error_line_def result_line_def error_result_def
      broken_call_def ascii_def)

lemma broken_step:
  "process_tool_call demo_env broken_call s
     = (Next,
        s\<lparr>history := history s
             @ [tool_message (ascii ''call_3'')
                  (ascii ''Error executing click_element: Expecting property name enclosed in double quotes: line 1 column 2 (char 1)'')]\<rparr>)"
proof -
  have e: "error_result demo_env (fname broken_call) (JSONDecodeError (arguments broken_call))
      = ascii ''Error executing click_element: Expecting property name enclosed in double quotes: line 1 column 2 (char 1)''"
    by (simp add: error_result_def demo_env_def broken_call_def ascii_def)
  have s: "stored_result (ascii ''Error executing click_element: Expecting property name enclosed in double quotes: line 1 column 2 (char 1)'')
      = ascii ''Error executing click_element: Expecting property name enclosed in double quotes: line 1 column 2 (char 1)''"
    by (simp add: stored_result_def ascii_def)
  show ?thesis
    using broken_loads broken_prints
    by (simp add: process_tool_call_def try_tool_call_def append_result_printed e s)
      (simp add: broken_call_def)
qed

text \<open>
  Claim C1, amended: within one task, a selected action whose arguments parse and that
  is neither \<open>set_plan\<close> nor \<open>finish_task\<close> gets the SYSTEM OVERRIDE result instead of
  being executed exactly when it equals the last completed action and the repetition
  counter, incremented for this selection, is at least 3. The counter is incremented
  by each such selection that equals the last completed action and is reset to zero
  by each such selection that differs from it; a \<open>set_plan\<close> call, a \<open>finish_task\<close>
  call and a call whose arguments do not parse leave the counter and the last action
  as they are. So when an action is selected four times in a row, the first selection
  completed and the loop ran on, the first three are executed and the fourth gets the
  override, without a browser operation. This is stated for a call whose line on the
  console prints.
\<close>

theorem loop_guard_counts_repeats:
  assumes "json_loads env (arguments tc) = Some args"
    and "fname tc \<noteq> ascii ''set_plan''" and "fname tc \<noteq> ascii ''finish_task''"
    and "console_print env (call_line tc) = None"
  shows
  "repeated_action_count (snd (process_tool_call env tc s))
     = (if last_action s = Some (fname tc, py_str env args) then repeated_action_count s + 1
        else 0)
   \<and> (last_action s = Some (fname tc, py_str env args) \<and> 2 \<le> repeated_action_count s \<longrightarrow>
        guarded_call env (fname tc) args s
          = (Inr OVERRIDE,
             s\<lparr>repeated_action_count := repeated_action_count s + 1,
               last_action := Some (fname tc, py_str env args)\<rparr>)
        \<and> (console_print env (result_line OVERRIDE) = None \<longrightarrow>
             process_tool_call env tc s
               = (Next,
                  s\<lparr>repeated_action_count := repeated_action_count s + 1,
                    last_action := Some (fname tc, py_str env args),
                    history := history s @ [tool_message (call_id tc) OVERRIDE]\<rparr>)))
   \<and> (\<not> (last_action s = Some (fname tc, py_str env args) \<and> 2 \<le> repeated_action_count s) \<longrightarrow>
        guarded_call env (fname tc) args s
          = (case call_tool env (fname tc) args
               (s\<lparr>repeated_action_count :=
                    (if last_action s = Some (fname tc, py_str env args)
                     then repeated_action_count s + 1 else 0)\<rparr>) of
               (Inl e, s2) \<Rightarrow> (Inl e, s2)
             | (Inr result, s2) \<Rightarrow>
                 (Inr (with_hint (fname tc) result),
                  s2\<lparr>last_action := Some (fname tc, py_str env args)\<rparr>)))
   \<and> (fst (process_tool_calls env [tc, tc, tc, tc] s) = Next
        \<and> last_action (snd (process_tool_call env tc s)) = Some (fname tc, py_str env args) \<longrightarrow>
        msg_content (last (history (snd (process_tool_calls env [tc, tc, tc, tc] s))))
          = Some OVERRIDE
        \<and> world (snd (process_tool_calls env [tc, tc, tc, tc] s))
            = world (snd (process_tool_calls env [tc, tc, tc] s)))
   \<and> (json_loads env (arguments other) = None \<or> fname other = ascii ''set_plan''
        \<or> fname other = ascii ''finish_task'' \<longrightarrow>
        repeated_action_count (snd (process_tool_call env other s)) = repeated_action_count s
        \<and> last_action (snd (process_tool_call env other s)) = last_action s)"
proof -
  let ?act = "(fname tc, py_str env args)"
  let ?step = "\<lambda>s. snd (process_tool_call env tc s)"
  note st = process_state [OF assms]
  have cnt: "\<And>s. repeated_action_count (?step s)
      = (if last_action s = Some ?act then repeated_action_count s + 1 else 0)"
    by (simp add: st guarded_count)
  have keep: "\<And>s. last_action s = Some ?act \<Longrightarrow> last_action (?step s) = Some ?act"
    by (simp add: st guarded_last_kept)
  have ov: "guarded_call env (fname tc) args s
          = (Inr OVERRIDE,
             s\<lparr>repeated_action_count := repeated_action_count s + 1,
               last_action := Some ?act\<rparr>)
        \<and> (console_print env (result_line OVERRIDE) = None \<longrightarrow>
             process_tool_call env tc s
               = (Next,
                  s\<lparr>repeated_action_count := repeated_action_count s + 1,
                    last_action := Some ?act,
                    history := history s @ [tool_message (call_id tc) OVERRIDE]\<rparr>))"
    if "last_action s = Some ?act \<and> 2 \<le> repeated_action_count s"
    using that process_override [OF assms, of s]
    by (simp add: guarded_override append_result_printed override_stored)
  have fourth: "msg_content (last (history (snd (process_tool_calls env [tc, tc, tc, tc] s))))
          = Some OVERRIDE
        \<and> world (snd (process_tool_calls env [tc, tc, tc, tc] s))
            = world (snd (process_tool_calls env [tc, tc, tc] s))"
    if n4: "fst (process_tool_calls env [tc, tc, tc, tc] s) = Next"
      and l1: "last_action (?step s) = Some ?act"
  proof -
    let ?s1 = "?step s"
    let ?s2 = "?step ?s1"
    let ?s3 = "?step ?s2"
    from process_tool_calls_step [OF n4]
    have a1: "fst (process_tool_call env tc s) = Next"
      and r1: "process_tool_calls env [tc, tc, tc, tc] s = process_tool_calls env [tc, tc, tc] ?s1"
      by simp_all
    from n4 r1 have n3: "fst (process_tool_calls env [tc, tc, tc] ?s1) = Next" by simp
    from process_tool_calls_step [OF n3]
    have a2: "fst (process_tool_call env tc ?s1) = Next"
      and r2: "process_tool_calls env [tc, tc, tc] ?s1 = process_tool_calls env [tc, tc] ?s2"
      by simp_all
    from n3 r2 have n2: "fst (process_tool_calls env [tc, tc] ?s2) = Next" by simp
    from process_tool_calls_step [OF n2]
    have a3: "fst (process_tool_call env tc ?s2) = Next"
      and r3: "process_tool_calls env [tc, tc] ?s2 = process_tool_calls env [tc] ?s3"
      by simp_all
    from n2 r3 have n1: "fst (process_tool_calls env [tc] ?s3) = Next" by simp
    from process_tool_calls_step [OF n1]
    have a4: "fst (process_tool_call env tc ?s3) = Next"
      and r4: "process_tool_calls env [tc] ?s3 = (Next, ?step ?s3)"
      by simp_all
    have three: "process_tool_calls env [tc, tc, tc] s = (Next, ?s3)"
      using a1 a2 a3
      by (cases "process_tool_call env tc s"; cases "process_tool_call env tc ?s1";
          cases "process_tool_call env tc ?s2") auto
    have l2: "last_action ?s2 = Some ?act" using l1 by (rule keep)
    have l3: "last_action ?s3 = Some ?act" using l2 by (rule keep)
    have "repeated_action_count ?s2 = repeated_action_count ?s1 + 1"
      using cnt [of ?s1] l1 by simp
    then have "repeated_action_count ?s3 = repeated_action_count ?s1 + 2"
      using cnt [of ?s2] l2 by simp
    then have c3: "2 \<le> repeated_action_count ?s3" by simp
    let ?s3' = "?s3\<lparr>repeated_action_count := repeated_action_count ?s3 + 1,
                    last_action := Some ?act\<rparr>"
    have p4: "process_tool_call env tc ?s3 = append_result env (call_id tc) OVERRIDE ?s3'"
      using process_override [OF assms l3 c3] .
    then have "fst (append_result env (call_id tc) OVERRIDE ?s3') = Next" using a4 by simp
    from append_result_Next [OF this]
    have "?step ?s3 = ?s3'\<lparr>history := history ?s3' @ [tool_message (call_id tc) OVERRIDE]\<rparr>"
      using p4 by (simp add: override_stored)
    then have "msg_content (last (history (?step ?s3))) = Some OVERRIDE"
      and "world (?step ?s3) = world ?s3"
      by (simp_all add: tool_message_def)
    then show ?thesis using r1 r2 r3 r4 three by simp
  qed
  show ?thesis
    using cnt [of s] ov guarded_dispatch [of s "fname tc" env args] fourth
      process_untouched [of env other s]
    by blast
qed

theorem loop_guard_counts_repeats_witness:
  "json_loads demo_env (arguments scan_call) = Some (JObj [])
   \<and> fname scan_call \<noteq> ascii ''set_plan'' \<and> fname scan_call \<noteq> ascii ''finish_task''
   \<and> console_print demo_env (call_line scan_call) = None
   \<and> last_action after_three = Some (fname scan_call, py_str demo_env (JObj []))
   \<and> 2 \<le> repeated_action_count after_three
   \<and> console_print demo_env (result_line OVERRIDE) = None
   \<and> process_tool_call demo_env scan_call after_three
       = (Next,
          after_three\<lparr>repeated_action_count := 3,
            history := history after_three @ [tool_message (ascii ''call_1'') OVERRIDE]\<rparr>)
   \<and> world (snd (process_tool_call demo_env scan_call after_three)) = 3
   \<and> last_action demo_agent \<noteq> Some (fname scan_call, py_str demo_env (JObj []))
   \<and> guarded_call demo_env (fname scan_call) (JObj []) demo_agent
       = (Inr (ascii ''Accessibility tree is empty.''),
          demo_agent\<lparr>world := 1, last_action := Some (ascii ''scan_page'', ascii ''{}'')\<rparr>)
   \<and> fst (process_tool_calls demo_env [scan_call, scan_call, scan_call, scan_call] demo_agent)
       = Next
   \<and> msg_content (last (history (snd (process_tool_calls demo_env
        [scan_call, scan_call, scan_call, scan_call] demo_agent)))) = Some OVERRIDE
   \<and> world (snd (process_tool_calls demo_env
        [scan_call, scan_call, scan_call, scan_call] demo_agent)) = 3
   \<and> json_loads demo_env (arguments broken_call) = None
   \<and> repeated_action_count (snd (process_tool_call demo_env broken_call after_three)) = 2
   \<and> msg_content (last (history (snd (process_tool_calls demo_env
        [broken_call, scan_call] after_three)))) = Some OVERRIDE"
proof -
  note guard = loop_guard_counts_repeats [OF demo_loads demo_names demo_call_prints]
  have l: "last_action after_three = Some (fname scan_call, py_str demo_env (JObj []))"
    by (simp add: after_three_eval demo_act)
  have c: "2 \<le> repeated_action_count after_three"
    by (simp add: after_three_eval)
  have a: "process_tool_call demo_env scan_call after_three
       = (Next,
          after_three\<lparr>repeated_action_count := 3,
            history := history after_three @ [tool_message (ascii ''call_1'') OVERRIDE]\<rparr>)"
    using guard [of after_three] l c demo_override_prints
    by (simp add: after_three_eval scan_call_def demo_act)
  then have w: "world (snd (process_tool_call demo_env scan_call after_three)) = 3"
    by (simp add: after_three_eval)
  have n: "last_action demo_agent \<noteq> Some (fname scan_call, py_str demo_env (JObj []))"
    by (simp add: demo_agent_def)
  have d: "guarded_call demo_env (fname scan_call) (JObj []) demo_agent
       = (Inr (ascii ''Accessibility tree is empty.''),
          demo_agent\<lparr>world := 1, last_action := Some (ascii ''scan_page'', ascii ''{}'')\<rparr>)"
    using guard [of demo_agent] n
    by (simp add: demo_call demo_no_hint demo_act) (simp add: demo_agent_def)
  have four: "process_tool_calls demo_env [scan_call, scan_call, scan_call, scan_call] demo_agent
      = (Next,
         demo_agent\<lparr>repeated_action_count := 3, world := 3,
           last_action := Some (ascii ''scan_page'', ascii ''{}''),
           history := [tool_message (ascii ''call_1'') (ascii ''Accessibility tree is empty.''),
                 tool_message (ascii ''call_1'') (ascii ''Accessibility tree is empty.''),
                 tool_message (ascii ''call_1'') (ascii ''Accessibility tree is empty.''),
                 tool_message (ascii ''call_1'') OVERRIDE]\<rparr>)"
    by (simp add: demo_step demo_step_override demo_agent_def)
  then have f1: "fst (process_tool_calls demo_env [scan_call, scan_call, scan_call, scan_call]
      demo_agent) = Next" by simp
  have k: "last_action (snd (process_tool_call demo_env scan_call demo_agent))
       = Some (fname scan_call, py_str demo_env (JObj []))"
    by (simp add: demo_step demo_agent_def demo_act)
  have f2: "msg_content (last (history (snd (process_tool_calls demo_env
        [scan_call, scan_call, scan_call, scan_call] demo_agent)))) = Some OVERRIDE"
    using guard [of demo_agent] f1 k by blast
  have f3: "world (snd (process_tool_calls demo_env
        [scan_call, scan_call, scan_call, scan_call] demo_agent)) = 3"
    using four by simp
  have b1: "repeated_action_count (snd (process_tool_call demo_env broken_call after_three)) = 2"
    using guard [of after_three broken_call] broken_loads by (simp add: after_three_eval)
  have b2: "msg_content (last (history (snd (process_tool_calls demo_env
        [broken_call, scan_call] after_three)))) = Some OVERRIDE"
    by (simp add: broken_step demo_step_override after_three_eval tool_message_def)
  show ?thesis
    using demo_loads demo_names demo_call_prints l c demo_override_prints a w n d f1 f2 f3
      broken_loads b1 b2
    by blast
qed

lemma process_tool_calls_append:
  "process_tool_calls env pre sb = (Next, s) \<Longrightarrow>
   process_tool_calls env (pre @ tcs) sb = process_tool_calls env tcs s"
proof (induction pre arbitrary: sb)
  case Nil
  then show ?case by simp
next
  case (Cons tc pre)
  obtain fl s1 where p: "process_tool_call env tc sb = (fl, s1)"
    by (cases "process_tool_call env tc sb")
  show ?case
    using Cons p by (cases fl) simp_all
qed

lemma process_set_plan:
  assumes "json_loads env (arguments tc) = Some (JObj kvs)" "fname tc = ascii ''set_plan''"
    "console_print env (call_line tc) = None"
    "console_print env (plan_line env
       (case map_of kvs (ascii ''steps'') of None \<Rightarrow> JArr [] | Some v \<Rightarrow> v)) = None"
  shows "process_tool_call env tc s
    = (Break, s\<lparr>plan := (case map_of kvs (ascii ''steps'') of None \<Rightarrow> JArr [] | Some v \<Rightarrow> v),
                history := [], has_planned := True\<rparr>)"
  using assms by (simp add: process_tool_call_def try_tool_call_def dict_get_def)

lemma list_loads: "json_loads demo_env (arguments list_call) = Some (JArr [JInt 1])"
  by (simp add: demo_env_def list_call_def steps_text_def ascii_def)

lemma list_error_result:
  "error_result demo_env (fname list_call) (AttributeError (JArr [JInt 1]) (ascii ''get''))
     = list_error"
  by (simp add: error_result_def demo_env_def list_call_def list_error_def ascii_def)

lemma list_step:
  "process_tool_call demo_env list_call s
     = (Next, s\<lparr>history := history s @ [tool_message (ascii ''call_4'') list_error]\<rparr>)"
proof -
  have p1: "console_print demo_env (call_line list_call) = None"
    by (simp add: demo_env_def call_line_def list_call_def ascii_def)
  have p2: "console_print demo_env (error_line list_error) = None"
    by (simp add: demo_env_def error_line_def list_error_def ascii_def)
  have p3: "console_print demo_env (result_line list_error) = None"
    by (simp add: demo_env_def result_line_def list_error_def ascii_def)
  have s: "stored_result list_error = list_error"
    by (simp add: stored_result_def list_error_def ascii_def)
  have t: "try_tool_call demo_env list_call s
      = (Inl (AttributeError (JArr [JInt 1]) (ascii ''get'')), Next, s)"
    using list_loads by (simp add: try_tool_call_def dict_get_def list_call_def)
  show ?thesis
    using p1 p2 p3
    by (simp add: process_tool_call_def t list_error_result append_result_printed s)
      (simp add: list_call_def)
qed

text \<open>
  Claim C6, as the specification has it: after the \<open>set_plan\<close> call of a turn is
  processed, the history is empty, the plan is set, the flag is set and no further tool
  call of the turn is processed. It fails for a \<open>set_plan\<close> call whose arguments parse
  to something that is not an object: with the arguments \<open>[1]\<close> the lookup of \<open>steps\<close>
  raises, the error string is appended to the history as a tool result, plan and flag
  stay as they were, and the next tool call of the turn is processed.
\<close>

theorem set_plan_list_arguments_reset_nothing:
  "fname list_call = ascii ''set_plan''
   \<and> json_loads demo_env (arguments list_call) = Some (JArr [JInt 1])
   \<and> process_tool_calls demo_env [list_call, scan_call] (demo_agent\<lparr>history := [small_message]\<rparr>)
       = (Next,
          demo_agent
            \<lparr>history :=
               [small_message,
                tool_message (ascii ''call_4'') list_error,
                tool_message (ascii ''call_1'') (ascii ''Accessibility tree is empty.'')],
             last_action := Some (ascii ''scan_page'', ascii ''{}''),
             world := 1\<rparr>)
   \<and> history (snd (process_tool_call demo_env list_call
         (demo_agent\<lparr>history := [small_message]\<rparr>))) \<noteq> []
   \<and> plan (snd (process_tool_call demo_env list_call
         (demo_agent\<lparr>history := [small_message]\<rparr>))) = JArr []
   \<and> has_planned (snd (process_tool_call demo_env list_call
         (demo_agent\<lparr>history := [small_message]\<rparr>))) = False"
  using list_loads
  by (simp add: list_step demo_step demo_agent_def) (simp add: list_call_def)

lemma plan_loads:
  "json_loads demo_env (arguments plan_call)
     = Some (JObj [(ascii ''steps'', JArr [JStr (ascii ''Search'')])])"
  by (simp add: demo_env_def plan_call_def steps_text_def ascii_def)

lemma plan_name: "fname plan_call = ascii ''set_plan''"
  by (simp add: plan_call_def)

lemma plan_prints:
  "console_print demo_env (call_line plan_call) = None"
  "console_print demo_env (plan_line demo_env
     (case map_of [(ascii ''steps'', JArr [JStr (ascii ''Search'')])] (ascii ''steps'') of
        None \<Rightarrow> JArr [] | Some v \<Rightarrow> v)) = None"
  by (simp_all add: demo_env_def call_line_def plan_line_def plan_call_def steps_text_def
      py_str_def ascii_def)

lemma demo_turn_start:
  "process_tool_calls demo_env [scan_call]
     ((prune_history char_tokenizer (demo_agent\<lparr>history := [small_message]\<rparr>))
        \<lparr>history := history (prune_history char_tokenizer
             (demo_agent\<lparr>history := [small_message]\<rparr>))
           @ [assistant_message None ([scan_call] @ plan_call # [scan_call])]\<rparr>)
   = (Next, after_scan)"
proof -
  have "pruned char_tokenizer TOKEN_LIMIT [small_message] = [small_message]"
    by (simp add: pruned_def small_message_tokens TOKEN_LIMIT_def)
  then show ?thesis
    by (simp add: prune_history_def demo_agent_def demo_step after_scan_def)
qed

text \<open>
  Claim C6, amended: when a \<open>set_plan\<close> call whose arguments parse to an object is
  processed and its lines on the console print, the history is empty, the plan is the
  \<open>steps\<close> argument (the empty list when the object has no such key), the
  plan-committed flag is set, and the loop over the tool calls of the turn is left: no
  later tool call of the turn is processed and no tool-result entry is appended. This
  holds wherever the call stands in the turn, as long as the calls before it leave the
  loop running.
\<close>

theorem set_plan_resets_history:
  assumes "json_loads env (arguments tc) = Some (JObj kvs)"
    and "fname tc = ascii ''set_plan''"
    and "console_print env (call_line tc) = None"
    and "console_print env (plan_line env
           (case map_of kvs (ascii ''steps'') of None \<Rightarrow> JArr [] | Some v \<Rightarrow> v)) = None"
  shows
  "process_tool_call env tc s
     = (Break, s\<lparr>plan := (case map_of kvs (ascii ''steps'') of None \<Rightarrow> JArr [] | Some v \<Rightarrow> v),
                 history := [], has_planned := True\<rparr>)
   \<and> history (snd (process_tool_call env tc s)) = []
   \<and> plan (snd (process_tool_call env tc s))
       = (case map_of kvs (ascii ''steps'') of None \<Rightarrow> JArr [] | Some v \<Rightarrow> v)
   \<and> has_planned (snd (process_tool_call env tc s))
   \<and> process_tool_calls env (tc # rest) s = process_tool_call env tc s
   \<and> (process_tool_calls env pre sb = (Next, s) \<longrightarrow>
        process_tool_calls env (pre @ tc # rest) sb = process_tool_call env tc s)
   \<and> (print_thought env c = None
        \<and> process_tool_calls env pre
             ((prune_history tk sb)
                \<lparr>history := history (prune_history tk sb)
                   @ [assistant_message c (pre @ tc # rest)]\<rparr>) = (Next, s) \<longrightarrow>
        iteration env tk (Reply c (pre @ tc # rest)) sb = process_tool_call env tc s)"
proof -
  note p = process_set_plan [OF assms]
  have one: "\<And>s. process_tool_calls env (tc # rest) s = process_tool_call env tc s"
    by (simp add: p)
  have pre: "\<And>sb. process_tool_calls env pre sb = (Next, s) \<Longrightarrow>
      process_tool_calls env (pre @ tc # rest) sb = process_tool_call env tc s"
    using process_tool_calls_append [of env pre _ s "tc # rest"] one by simp
  have "iteration env tk (Reply c (pre @ tc # rest)) sb = process_tool_call env tc s"
    if "print_thought env c = None \<and> process_tool_calls env pre
         ((prune_history tk sb)
            \<lparr>history := history (prune_history tk sb)
               @ [assistant_message c (pre @ tc # rest)]\<rparr>) = (Next, s)"
    using that pre by (simp add: iteration_def Let_def)
  then show ?thesis using p one pre by simp
qed

theorem set_plan_resets_history_witness:
  "json_loads demo_env (arguments plan_call)
     = Some (JObj [(ascii ''steps'', JArr [JStr (ascii ''Search'')])])
   \<and> fname plan_call = ascii ''set_plan''
   \<and> console_print demo_env (call_line plan_call) = None
   \<and> print_thought demo_env None = None
   \<and> iteration demo_env char_tokenizer (Reply None [scan_call, plan_call, scan_call])
        (demo_agent\<lparr>history := [small_message]\<rparr>)
       = (Break, after_scan\<lparr>plan := JArr [JStr (ascii ''Search'')], history := [],
                            has_planned := True\<rparr>)
   \<and> world after_scan = 1"
proof -
  have t: "print_thought demo_env None = None" by (simp add: print_thought_def)
  show ?thesis
    using set_plan_resets_history [OF plan_loads plan_name plan_prints, where s = after_scan
        and rest = "[scan_call]" and pre = "[scan_call]" and tk = char_tokenizer
        and sb = "demo_agent\<lparr>history := [small_message]\<rparr>" and c = None]
      demo_turn_start plan_loads plan_name plan_prints(1) t
    by (simp add: after_scan_def)
qed

lemma process_malformed:
  assumes "json_loads env (arguments tc) = None"
    "console_print env (call_line tc) = None"
    "console_print env (error_line (error_result env (fname tc)
       (JSONDecodeError (arguments tc)))) = None"
    "console_print env (result_line (error_result env (fname tc)
       (JSONDecodeError (arguments tc)))) = None"
  shows "process_tool_call env tc s
    = (Next,
       s\<lparr>history := history s
            @ [tool_message (call_id tc)
                (stored_result (ascii ''Error executing '' @ fname tc @ ascii '': ''
                  @ str_exn env (JSONDecodeError (arguments tc))))]\<rparr>)"
  using assms
  by (simp add: process_tool_call_def try_tool_call_def append_result_printed)
    (simp add: error_result_def)

lemma markup_loads: "json_loads demo_env (arguments markup_call) = None"
  by (simp add: demo_env_def markup_call_def steps_text_def ascii_def)

lemma markup_line:
  "call_line markup_call
     = Text ([0x1F527] @ ascii '' Call: [bold green]click_element[/bold green] {oops [/b]'')"
  by (simp add: call_line_def markup_call_def ascii_def)

lemma markup_step:
  "process_tool_call demo_env markup_call s
     = (Raise (MarkupError
          ([0x1F527] @ ascii '' Call: [bold green]click_element[/bold green] {oops [/b]'')), s)"
proof -
  have "console_print demo_env (call_line markup_call)
      = Some (MarkupError
          ([0x1F527] @ ascii '' Call: [bold green]click_element[/bold green] {oops [/b]''))"
    unfolding markup_line by (simp add: demo_env_def ascii_def)
  then show ?thesis by (simp add: process_tool_call_def)
qed

text \<open>
  Claim C9 says that a tool call whose arguments string \<open>json.loads\<close> rejects is caught,
  that the error string naming the tool is appended as a tool result, and that the loop
  goes on without crashing. The \<open>try\<close> block does that whenever the lines of the call
  print (\<open>process_malformed\<close>). But the line of the call is printed as console markup
  before the \<open>try\<close>: for the arguments \<open>{oops [/b]\<close>, whose closing tag closes nothing,
  the print raises, no tool result is appended, the next tool call of the turn is not
  processed, and \<open>run\<close> ends with the exception in its first iteration.
\<close>

theorem malformed_call_with_markup_raises:
  "json_loads demo_env (arguments markup_call) = None
   \<and> process_tool_calls demo_env [markup_call, scan_call] demo_agent
       = (Raise (MarkupError
            ([0x1F527] @ ascii '' Call: [bold green]click_element[/bold green] {oops [/b]'')),
          demo_agent)
   \<and> run_from demo_env char_tokenizer (\<lambda>i. Reply None [markup_call, scan_call])
        MAX_ITERATIONS 0 demo_agent
       = (Raise (MarkupError
            ([0x1F527] @ ascii '' Call: [bold green]click_element[/bold green] {oops [/b]'')),
          demo_agent\<lparr>history := [assistant_message None [markup_call, scan_call]]\<rparr>)"
proof -
  have p: "pruned char_tokenizer TOKEN_LIMIT [] = []"
    by (simp add: pruned_def)
  have m: "MAX_ITERATIONS = Suc 49" by (simp add: MAX_ITERATIONS_def)
  have i: "iteration demo_env char_tokenizer (Reply None [markup_call, scan_call]) demo_agent
      = (Raise (MarkupError
            ([0x1F527] @ ascii '' Call: [bold green]click_element[/bold green] {oops [/b]'')),
          demo_agent\<lparr>history := [assistant_message None [markup_call, scan_call]]\<rparr>)"
    by (simp add: iteration_def Let_def prune_history_def p print_thought_def markup_step
        demo_agent_def)
  have r: "run_from demo_env char_tokenizer (\<lambda>i. Reply None [markup_call, scan_call])
        MAX_ITERATIONS 0 demo_agent
       = (Raise (MarkupError
            ([0x1F527] @ ascii '' Call: [bold green]click_element[/bold green] {oops [/b]'')),
          demo_agent\<lparr>history := [assistant_message None [markup_call, scan_call]]\<rparr>)"
    unfolding m by (subst run_from.simps) (simp add: i)
  show ?thesis
    using markup_loads r by (simp add: markup_step)
qed

end
